theory Spec2Isabelle
  imports Main
begin

section \<open>Data model of DataFramerXML.py\<close>

text \<open>
  The module streams an OpenStreetMap XML document with \<^verbatim>\<open>ET.iterparse\<close>, keeps the
  elements whose tag is in a tag filter and writes every \<open>factor\<close>-th of them to each
  destination of \<^verbatim>\<open>export_files\<close>.

  An XML element is a tree node. \<^verbatim>\<open>ET.iterparse\<close> and \<^verbatim>\<open>ET.tostring\<close> are library
  functions: the first is modelled by the events it delivers for a document (a
  \<open>start\<close> event when an element opens, an \<open>end\<close> event when it closes, and a
  \<^verbatim>\<open>ParseError\<close> where the text stops being well-formed). The bytes the second
  returns are not modelled: a file is the sequence of the \<^verbatim>\<open>output.write\<close> calls made
  on it, and \<open>Serialized e\<close> is the write of \<^verbatim>\<open>ET.tostring(e, encoding='utf-8')\<close> for
  an element object in the state \<open>e\<close>.
\<close>

datatype element =
  Element (tag: string) (attrib: "(string \<times> string) list") (elem_text: string)
    (children: "element list")

datatype event_kind = Start | End

datatype item = Ev event_kind element | Malformed

datatype chunk = Bytes string | Serialized element

text \<open>
  A source file: the element tree of its text; when the text is not well-formed, the
  number of events the parser delivers before it raises; and the numbers of events that
  the successive reads of 16 KiB bring (\<^verbatim>\<open>iterparse\<close> parses a whole block before it
  delivers the first event of the block; when the list is used up, the next read brings
  all the remaining events).
\<close>

record xml_source =
  tree :: element
  cut :: "nat option"
  blocks :: "nat list"

datatype error =
    ValueError string
  | IOError string
  | FileNotFoundError
  | IsADirectoryError
  | NotADirectoryError
  | ParseError
  | StopIteration
  | ZeroDivisionError
  | AttributeError

fun events :: "element \<Rightarrow> (event_kind \<times> element) list" where
  "events (Element t a x cs) =
     (Start, Element t a x cs) # concat (map events cs) @ [(End, Element t a x cs)]"

definition items :: "xml_source \<Rightarrow> item list" where
  "items s =
     (case cut s of
        None \<Rightarrow> map (\<lambda>(k, e). Ev k e) (events (tree s))
      | Some n \<Rightarrow> map (\<lambda>(k, e). Ev k e) (take n (events (tree s))) @ [Malformed])"

text \<open>
  The world outside the program: the directories that exist, the source documents by
  path, and the files written so far. A written file takes the place of a source
  document at the same path.
\<close>

record world =
  dirs :: "string set"
  docs :: "string \<rightharpoonup> xml_source"
  files :: "string \<rightharpoonup> chunk list"

subsection \<open>Strings and paths\<close>

text \<open>\<^verbatim>\<open>str.lower\<close> on the letters that can make up the word \<open>osm\<close>: ASCII.\<close>

definition lower_char :: "char \<Rightarrow> char" where
  "lower_char c =
     (case map_of (zip ''ABCDEFGHIJKLMNOPQRSTUVWXYZ'' ''abcdefghijklmnopqrstuvwxyz'') c of
        None \<Rightarrow> c
      | Some l \<Rightarrow> l)"

definition lower :: "string \<Rightarrow> string" where
  "lower s = map lower_char s"

text \<open>\<^verbatim>\<open>s.split(c)\<close>: never empty, the last component is the text after the last \<open>c\<close>.\<close>

fun split :: "char \<Rightarrow> string \<Rightarrow> string list" where
  "split c [] = [[]]"
| "split c (x # xs) =
     (if x = c then [] # split c xs
      else (case split c xs of
              [] \<Rightarrow> [[x]]
            | w # ws \<Rightarrow> (x # w) # ws))"

definition extension :: "string \<Rightarrow> string" where
  "extension name = last (split (CHR ''.'') name)"

text \<open>\<^verbatim>\<open>os.path.join\<close> of two components and \<^verbatim>\<open>os.path.dirname\<close> (POSIX).\<close>

definition path_join :: "string \<Rightarrow> string \<Rightarrow> string" where
  "path_join d n =
     (if n \<noteq> [] \<and> hd n = CHR ''/'' then n
      else if d = [] \<or> last d = CHR ''/'' then d @ n
      else d @ ''/'' @ n)"

fun strip_slashes :: "string \<Rightarrow> string" where
  "strip_slashes [] = []"
| "strip_slashes (x # xs) = (if x = CHR ''/'' then strip_slashes xs else x # xs)"

definition dirname :: "string \<Rightarrow> string" where
  "dirname p =
     (let h = rev (dropWhile (\<lambda>c. c \<noteq> CHR ''/'') (rev p));
          s = rev (strip_slashes (rev h))
      in if s = [] then h else s)"

definition path_exists :: "world \<Rightarrow> string \<Rightarrow> bool" where
  "path_exists w p = (p \<in> dirs w \<or> p \<in> dom (files w) \<or> p \<in> dom (docs w))"

section \<open>Files\<close>

definition xml_declaration :: string where
  "xml_declaration =
     ''<?xml version='' @ [CHR 0x22] @ ''1.0'' @ [CHR 0x22] @ '' encoding='' @ [CHR 0x22]
       @ ''UTF-8'' @ [CHR 0x22] @ ''?>'' @ [CHR 0x0A]"

definition root_open :: string where
  "root_open = ''<osm>'' @ [CHR 0x0A] @ ''  ''"

definition root_close :: string where
  "root_close = ''</osm>''"

text \<open>
  What the parser makes of a file this program has written. The parser reads back from
  a serialization the element it was made from, so a file of the declaration, the
  opening root tag, serialized elements and the closing root tag is the document whose
  root \<open>osm\<close> has these elements as children; without the closing tag the parser
  raises at the end of the file; an empty file has no element. Such a file is taken to
  be read in one block.
\<close>

fun serialized_elements :: "chunk list \<Rightarrow> element list" where
  "serialized_elements [] = []"
| "serialized_elements (Serialized e # cs) = e # serialized_elements cs"
| "serialized_elements (Bytes b # cs) = serialized_elements cs"

definition reparse :: "chunk list \<Rightarrow> xml_source" where
  "reparse cs =
     (let es = serialized_elements (drop 2 cs);
          t = Element ''osm'' [] ([CHR 0x0A] @ ''  '') es
      in if take 2 cs = [Bytes xml_declaration, Bytes root_open]
            \<and> drop 2 cs = map Serialized es @ [Bytes root_close]
         then \<lparr>tree = t, cut = None, blocks = []\<rparr>
         else if take 2 cs = [Bytes xml_declaration, Bytes root_open]
            \<and> drop 2 cs = map Serialized es
         then \<lparr>tree = t, cut = Some (length (events t) - 1), blocks = []\<rparr>
         else \<lparr>tree = Element [] [] [] [], cut = Some 0, blocks = []\<rparr>)"

text \<open>The document a reader finds at a path.\<close>

definition file_source :: "world \<Rightarrow> string \<Rightarrow> xml_source option" where
  "file_source w p =
     (case files w p of
        Some cs \<Rightarrow> Some (reparse cs)
      | None \<Rightarrow> docs w p)"

text \<open>
  \<^verbatim>\<open>open(path, 'wb')\<close>: the file is created or truncated; it fails where the path is a
  directory, where its directory part is a file, and where its directory part does not
  exist (an empty directory part is the current directory).
\<close>

definition open_wb :: "world \<Rightarrow> string \<Rightarrow> error + world" where
  "open_wb w p =
     (if p \<in> dirs w then Inl IsADirectoryError
      else if dirname p \<noteq> [] \<and> dirname p \<notin> dirs w then
        (if dirname p \<in> dom (files w) \<or> dirname p \<in> dom (docs w) then Inl NotADirectoryError
         else Inl FileNotFoundError)
      else Inr (w\<lparr>files := (files w)(p \<mapsto> [])\<rparr>))"

definition write_file :: "world \<Rightarrow> string \<Rightarrow> chunk list \<Rightarrow> world" where
  "write_file w p chunks = w\<lparr>files := (files w)(p \<mapsto> chunks)\<rparr>"

text \<open>
  \<^verbatim>\<open>iter(ET.iterparse(source, events=('start', 'end')))\<close> opens the file at once and
  reads nothing before the first \<^verbatim>\<open>next\<close>.
\<close>

definition iterparse :: "world \<Rightarrow> string \<Rightarrow> error + unit" where
  "iterparse w p =
     (if file_source w p \<noteq> None then Inr ()
      else if p \<in> dirs w then Inl IsADirectoryError
      else Inl FileNotFoundError)"

section \<open>ParserXML\<close>

text \<open>
  The object. \<open>cursor\<close> is the attribute \<^verbatim>\<open>_context\<close>: the events of the file that
  have not been delivered. The iterator behind it has more state: \<open>unread\<close> says
  that the file has been opened and nothing has been read (the cursor is then empty
  and gets its events at the first \<^verbatim>\<open>next\<close>, from the file as it is then);
  \<open>queued\<close> is the number of events at the front of the cursor that are parsed and
  wait in the queue, \<open>blocks_left\<close> the sizes of the blocks still to be read, and
  \<open>depth\<close> the number of elements that are open at the cursor.

  \<open>root\<close> is the state of the element object that \<^verbatim>\<open>self.root\<close> refers to, written
  with the children it will have when it closes. \<open>root_live\<close> says that this object is
  the root of the document the cursor is reading: \<^verbatim>\<open>_check_root\<close> makes it so, and
  \<^verbatim>\<open>export_dataset\<close> replaces the cursor without setting \<^verbatim>\<open>self.root\<close> again.

  \<open>export\<close> holds the truth value of the \<^verbatim>\<open>export\<close> option when it is given (the
  code only tests it), \<open>export_file_map\<close> (the attribute \<^verbatim>\<open>export_files\<close>) the
  \<^verbatim>\<open>files\<close> dictionary in its iteration order.
\<close>

record parser =
  source :: string
  cursor :: "item list"
  unread :: bool
  queued :: nat
  blocks_left :: "nat list"
  depth :: nat
  root :: element
  root_live :: bool
  tags :: "string list"
  export_file_map :: "(string \<times> int) list option"
  export :: "bool option"
  tagValidation :: bool
  rootPath :: string

text \<open>
  The queue before an event is delivered, given the number of events that remain: an
  empty queue is filled by reading blocks until one brings events.
\<close>

fun refill :: "nat \<Rightarrow> nat \<Rightarrow> nat list \<Rightarrow> nat \<times> nat list" where
  "refill n 0 (b # bs) = refill n b bs"
| "refill n 0 [] = (n, [])"
| "refill n (Suc q) bs = (Suc q, bs)"

text \<open>The first \<^verbatim>\<open>next\<close> of an iterator that has read nothing takes the file as it is.\<close>

definition start_reading :: "world \<Rightarrow> parser \<Rightarrow> parser" where
  "start_reading w p =
     (if unread p then
        (case file_source w (source p) of
           None \<Rightarrow> p\<lparr>cursor := [], unread := False\<rparr>
         | Some s \<Rightarrow>
             p\<lparr>cursor := items s, unread := False, queued := 0, blocks_left := blocks s,
               depth := 0\<rparr>)
      else p)"

definition check_root :: "item list \<Rightarrow> error + (element \<times> item list)" where
  "check_root c =
     (case c of
        [] \<Rightarrow> Inl StopIteration
      | Malformed # rest \<Rightarrow> Inl ParseError
      | Ev k e # rest \<Rightarrow>
          if lower (tag e) \<noteq> ''osm'' then Inl (ValueError ''OpenStreetDataMap Error'')
          else Inr (e, rest))"

text \<open>
  \<^verbatim>\<open>ParserXML.__init__\<close>; \<open>res\<close> is the module constant \<^verbatim>\<open>RES\<close>. The result is the
  source path, the root, the cursor after the root event, and the queue and the blocks
  left after the first read.
\<close>

definition ParserXML_init ::
  "string \<Rightarrow> world \<Rightarrow> string
     \<Rightarrow> error + (string \<times> element \<times> item list \<times> nat \<times> nat list)" where
  "ParserXML_init res w osmFile =
     (if lower (extension osmFile) \<noteq> ''osm'' then Inl (ValueError ''Error in OSM file'')
      else
        (case iterparse w (path_join res osmFile) of
           Inl e \<Rightarrow> Inl e
         | Inr _ \<Rightarrow>
             (case file_source w (path_join res osmFile) of
                None \<Rightarrow> Inl FileNotFoundError
              | Some s \<Rightarrow>
                  (case check_root (items s) of
                     Inl e \<Rightarrow> Inl e
                   | Inr (r, rest) \<Rightarrow>
                       Inr (path_join res osmFile, r, rest,
                            fst (refill (length (items s)) 0 (blocks s)) - 1,
                            snd (refill (length (items s)) 0 (blocks s)))))))"

text \<open>
  One \<^verbatim>\<open>next\<close> of the generator \<^verbatim>\<open>_get_element\<close>: the events are read until an
  \<open>end\<close> event of an element whose tag is in the filter. The result is that element
  with the depth, the queue, the blocks left and the cursor after its event.
\<close>

fun get_element ::
  "string list \<Rightarrow> nat \<Rightarrow> nat \<Rightarrow> nat list \<Rightarrow> item list
     \<Rightarrow> error + (element \<times> nat \<times> nat \<times> nat list \<times> item list) option" where
  "get_element ts d q bs [] = Inr None"
| "get_element ts d q bs (Malformed # rest) = Inl ParseError"
| "get_element ts d q bs (Ev k e # rest) =
     (if k = End \<and> tag e \<in> set ts
      then Inr (Some (e, d - 1, fst (refill (Suc (length rest)) q bs) - 1,
                      snd (refill (Suc (length rest)) q bs), rest))
      else get_element ts (if k = Start then Suc d else d - 1)
             (fst (refill (Suc (length rest)) q bs) - 1)
             (snd (refill (Suc (length rest)) q bs)) rest)"

text \<open>
  The children of the root that the parser has not read yet, when \<open>q\<close> events wait
  in the queue in front of a cursor at depth \<open>d\<close>: the elements that open directly
  under the root after the queue.
\<close>

fun unread_children :: "nat \<Rightarrow> nat \<Rightarrow> item list \<Rightarrow> element list" where
  "unread_children q d [] = []"
| "unread_children q d (Malformed # rest) = []"
| "unread_children q d (Ev Start e # rest) =
     (if q = 0 \<and> d = 1 then e # unread_children 0 (Suc d) rest
      else unread_children (q - 1) (Suc d) rest)"
| "unread_children q d (Ev End e # rest) = unread_children (q - 1) (d - 1) rest"

text \<open>
  \<^verbatim>\<open>self.root.clear()\<close>: \<^verbatim>\<open>Element.clear()\<close> keeps the tag and drops attributes, text
  and the children the object has. The root of the document being read gets the
  children that are read later; an object of an earlier parse gets none.
\<close>

definition clear_root :: "parser \<Rightarrow> element" where
  "clear_root p =
     Element (tag (root p)) [] []
       (if root_live p then unread_children (queued p) (depth p) (cursor p) else [])"

section \<open>DataFramerXML\<close>

definition truthy :: "bool option \<Rightarrow> bool" where
  "truthy v = (case v of None \<Rightarrow> False | Some b \<Rightarrow> b)"

text \<open>The loop \<^verbatim>\<open>for event, elem in self.context: allTags.add(elem.tag)\<close>.\<close>

fun all_tags :: "item list \<Rightarrow> string set \<Rightarrow> error + string set" where
  "all_tags [] acc = Inr acc"
| "all_tags (Malformed # rest) acc = Inl ParseError"
| "all_tags (Ev k e # rest) acc = all_tags rest (insert (tag e) acc)"

definition check_export :: "parser \<Rightarrow> error + unit" where
  "check_export p =
     (if \<not> truthy (export p) then Inr ()
      else if export p = None \<and> export_file_map p \<noteq> None
              \<or> export p \<noteq> None \<and> export_file_map p = None
      then Inl (ValueError ''Export value and export_files doesn't match'')
      else Inr ())"

definition check_tags :: "parser \<Rightarrow> error + parser" where
  "check_tags p =
     (if tagValidation p then
        (case all_tags (cursor p) {} of
           Inl e \<Rightarrow> Inl e
         | Inr allTags \<Rightarrow>
             if \<exists>each \<in> set (tags p). each \<notin> allTags
             then Inl (ValueError ''Given tags are not present in XML'')
             else Inr (p\<lparr>cursor := [], queued := 0, blocks_left := [], depth := 0\<rparr>))
      else Inr p)"

text \<open>\<^verbatim>\<open>_validate\<close>: the two checks in the order of the source.\<close>

definition validate :: "parser \<Rightarrow> error + parser" where
  "validate p =
     (case check_export p of
        Inl e \<Rightarrow> Inl e
      | Inr _ \<Rightarrow> check_tags p)"

text \<open>\<^verbatim>\<open>DataFramerXML.__init__\<close> with its keyword options.\<close>

definition DataFramerXML_init ::
  "string \<Rightarrow> world \<Rightarrow> string \<Rightarrow> string list \<Rightarrow> (string \<times> int) list option \<Rightarrow> bool option
     \<Rightarrow> bool \<Rightarrow> string \<Rightarrow> error + parser" where
  "DataFramerXML_init res w osmFile ts fs ex tv rp =
     (case ParserXML_init res w osmFile of
        Inl e \<Rightarrow> Inl e
      | Inr (src, r, rest, q, bs) \<Rightarrow>
          validate \<lparr>source = src, cursor = rest, unread = False, queued = q,
                    blocks_left = bs, depth = 1, root = r, root_live = True, tags = ts,
                    export_file_map = fs, export = ex, tagValidation = tv, rootPath = rp\<rparr>)"

section \<open>export_dataset\<close>

lemma get_element_shorter:
  "get_element ts d q bs c = Inr (Some (e, d1, q1, bs1, rest)) \<Longrightarrow> length rest < length c"
  by (induction ts d q bs c rule: get_element.induct) (auto split: if_splits)

text \<open>
  The loop \<^verbatim>\<open>for i, element in enumerate(self._get_element(self.tags))\<close> with its
  body; \<open>out\<close> holds the writes made on the open file. The element of the \<open>end\<close>
  event that closes the document is the root object: when \<^verbatim>\<open>self.root\<close> is that
  object, it is written in the state the earlier \<^verbatim>\<open>clear\<close> calls left. The generator
  clears the root when it is resumed after a \<^verbatim>\<open>yield\<close>.
  \<^verbatim>\<open>i % factor\<close> raises when the factor is 0. An iterator that has raised or is
  exhausted yields nothing more.
\<close>

function write_elements ::
  "int \<Rightarrow> nat \<Rightarrow> parser \<Rightarrow> chunk list \<Rightarrow> (error + unit) \<times> parser \<times> chunk list" where
  "write_elements factor i p out =
     (case get_element (tags p) (depth p) (queued p) (blocks_left p) (cursor p) of
        Inl e \<Rightarrow> (Inl e, p\<lparr>cursor := []\<rparr>, out)
      | Inr None \<Rightarrow> (Inr (), p\<lparr>cursor := []\<rparr>, out)
      | Inr (Some (e, d, q, bs, rest)) \<Rightarrow>
          if factor = 0
          then (Inl ZeroDivisionError,
                p\<lparr>cursor := rest, queued := q, blocks_left := bs, depth := d\<rparr>, out)
          else write_elements factor (Suc i)
                 (p\<lparr>cursor := rest, queued := q, blocks_left := bs, depth := d,
                    root := clear_root
                      (p\<lparr>cursor := rest, queued := q, blocks_left := bs, depth := d\<rparr>)\<rparr>)
                 (if int i mod factor = 0
                  then out @ [Serialized (if root_live p \<and> d = 0 then root p else e)]
                  else out))"
  by pat_completeness auto
termination
  by (relation "measure (\<lambda>(factor, i, p, out). length (cursor p))")
     (auto dest: get_element_shorter)

declare write_elements.simps [simp del]

text \<open>
  A destination that is the file the cursor is reading: \<^verbatim>\<open>open\<close> truncates the file,
  and the reader finds its end where it looks for the next block (the new content is
  taken to be shorter than what had been read). The events in the queue stay; if events
  were still to be read, the parser raises in their place.
\<close>

definition truncate_source :: "string \<Rightarrow> parser \<Rightarrow> parser" where
  "truncate_source path p =
     (if \<not> unread p \<and> source p = path then
        p\<lparr>cursor := take (queued p) (cursor p)
                      @ (if queued p < length (cursor p) then [Malformed] else []),
           blocks_left := []\<rparr>
      else p)"

text \<open>
  The body of the loop over \<^verbatim>\<open>self.export_files.items()\<close> for one entry. The
  \<^verbatim>\<open>with\<close> block closes the file also when an exception leaves it, so what was
  written stays in the file. The new cursor of the last statement has read nothing,
  and \<^verbatim>\<open>self.root\<close> stays the root object of the first parse.
\<close>

definition export_one ::
  "string \<Rightarrow> string \<times> int \<Rightarrow> parser \<Rightarrow> world \<Rightarrow> (error + unit) \<times> parser \<times> world" where
  "export_one default_path entry p w =
     (let export_file = fst entry; factor = snd entry; path = path_join default_path export_file
      in if extension export_file \<noteq> ''osm''
         then (Inl (ValueError ''Export files must OSM type''), p, w)
         else
           (case open_wb w path of
              Inl e \<Rightarrow> (Inl e, p, w)
            | Inr w1 \<Rightarrow>
                (case write_elements factor 0 (start_reading w1 (truncate_source path p))
                        [Bytes xml_declaration, Bytes root_open] of
                   (Inl e, p1, out) \<Rightarrow> (Inl e, p1, write_file w1 path out)
                 | (Inr _, p1, out) \<Rightarrow>
                     (case iterparse (write_file w1 path (out @ [Bytes root_close])) (source p1) of
                        Inl e \<Rightarrow> (Inl e, p1, write_file w1 path (out @ [Bytes root_close]))
                      | Inr _ \<Rightarrow>
                          (Inr (),
                           p1\<lparr>cursor := [], unread := True, queued := 0, blocks_left := [],
                              depth := 0, root_live := False\<rparr>,
                           write_file w1 path (out @ [Bytes root_close]))))))"

fun export_all ::
  "string \<Rightarrow> (string \<times> int) list \<Rightarrow> parser \<Rightarrow> world \<Rightarrow> (error + unit) \<times> parser \<times> world" where
  "export_all default_path [] p w = (Inr (), p, w)"
| "export_all default_path (entry # entries) p w =
     (case export_one default_path entry p w of
        (Inl e, p1, w1) \<Rightarrow> (Inl e, p1, w1)
      | (Inr _, p1, w1) \<Rightarrow> export_all default_path entries p1 w1)"

definition export_dataset ::
  "string \<Rightarrow> parser \<Rightarrow> world \<Rightarrow> (error + unit) \<times> parser \<times> world" where
  "export_dataset default_path p w =
     (if \<not> path_exists w (rootPath p) then (Inl (IOError ''The path doesn't exist.''), p, w)
      else
        (case export_file_map p of
           None \<Rightarrow> (Inl AttributeError, p, w)
         | Some entries \<Rightarrow> export_all default_path entries p w))"

section \<open>Notions the properties are stated with\<close>

text \<open>
  The elements a pass of the generator yields from a cursor: the elements of the
  \<open>end\<close> events with a tag of the filter, up to the end of the events or the first
  parse error.
\<close>

fun yielded :: "string list \<Rightarrow> item list \<Rightarrow> element list" where
  "yielded ts [] = []"
| "yielded ts (Malformed # rest) = []"
| "yielded ts (Ev k e # rest) =
     (if k = End \<and> tag e \<in> set ts then e # yielded ts rest else yielded ts rest)"

text \<open>The elements of a document in the order in which they close (post-order).\<close>

fun closing_order :: "element \<Rightarrow> element list" where
  "closing_order (Element t a x cs) = concat (map closing_order cs) @ [Element t a x cs]"

text \<open>The source elements whose tag is in the filter, in document order.\<close>

definition filtered :: "string list \<Rightarrow> element \<Rightarrow> element list" where
  "filtered ts doc = filter (\<lambda>e. tag e \<in> set ts) (closing_order doc)"

text \<open>The elements at the positions \<open>j\<close> of a list with \<open>(i + j) mod factor = 0\<close>.\<close>

fun sampled :: "int \<Rightarrow> nat \<Rightarrow> 'a list \<Rightarrow> 'a list" where
  "sampled factor i [] = []"
| "sampled factor i (x # xs) =
     (if int i mod factor = 0 then x # sampled factor (Suc i) xs else sampled factor (Suc i) xs)"

text \<open>
  Every \<open>n\<close>-th element as the specification counts them: \<open>ceil (M / n)\<close> elements,
  the \<open>k\<close>-th of them (from 0) the element at index \<open>k * n\<close>.
\<close>

definition ceil_div :: "nat \<Rightarrow> nat \<Rightarrow> nat" where
  "ceil_div m n = (m + n - 1) div n"

definition every_nth :: "nat \<Rightarrow> 'a list \<Rightarrow> 'a list" where
  "every_nth n xs = map (\<lambda>k. xs ! (k * n)) [0..<ceil_div (length xs) n]"

text \<open>
  The states in which the generator hands over the elements it yields: the element of
  the event, except for the root object of the document being read, which is handed
  over as the \<^verbatim>\<open>clear\<close> calls after the earlier elements left it.
\<close>

fun yielded_states ::
  "string list \<Rightarrow> bool \<Rightarrow> element \<Rightarrow> nat \<Rightarrow> nat \<Rightarrow> nat list \<Rightarrow> item list \<Rightarrow> element list" where
  "yielded_states ts live r d q bs [] = []"
| "yielded_states ts live r d q bs (Malformed # rest) = []"
| "yielded_states ts live r d q bs (Ev k e # rest) =
     (if k = End \<and> tag e \<in> set ts
      then (if live \<and> d - 1 = 0 then r else e)
           # yielded_states ts live
               (Element (tag r) [] []
                  (if live
                   then unread_children (fst (refill (Suc (length rest)) q bs) - 1) (d - 1) rest
                   else []))
               (d - 1) (fst (refill (Suc (length rest)) q bs) - 1)
               (snd (refill (Suc (length rest)) q bs)) rest
      else yielded_states ts live r (if k = Start then Suc d else d - 1)
             (fst (refill (Suc (length rest)) q bs) - 1)
             (snd (refill (Suc (length rest)) q bs)) rest)"

text \<open>The elements a pass with the given factor writes before it ends or fails.\<close>

definition written :: "int \<Rightarrow> parser \<Rightarrow> element list" where
  "written factor p =
     (if factor = 0 then []
      else sampled factor 0
             (yielded_states (tags p) (root_live p) (root p) (depth p) (queued p)
                (blocks_left p) (cursor p)))"

text \<open>The eight spellings of \<open>osm\<close> in upper and lower case letters.\<close>

definition osm_spellings :: "string set" where
  "osm_spellings =
     {''osm'', ''osM'', ''oSm'', ''oSM'', ''Osm'', ''OsM'', ''OSm'', ''OSM''}"

text \<open>
  A pass fails while it streams when the cursor meets a parse error, or when the factor
  is 0 and an element is yielded.
\<close>

definition stream_fails :: "int \<Rightarrow> string list \<Rightarrow> item list \<Rightarrow> bool" where
  "stream_fails factor ts c = (Malformed \<in> set c \<or> factor = 0 \<and> yielded ts c \<noteq> [])"

text \<open>\<^verbatim>\<open>open(path, 'wb')\<close> succeeds.\<close>

definition writable :: "world \<Rightarrow> string \<Rightarrow> bool" where
  "writable w path = (path \<notin> dirs w \<and> (dirname path = [] \<or> dirname path \<in> dirs w))"

text \<open>The opening and the closing tag of a root with the given tag name.\<close>

definition opening_tag :: "string \<Rightarrow> string" where
  "opening_tag t = ''<'' @ t @ ''>'' @ [CHR 0x0A] @ ''  ''"

definition closing_tag :: "string \<Rightarrow> string" where
  "closing_tag t = ''</'' @ t @ ''>''"

text \<open>
  The parser as it is when a pass starts to stream, after the destination at the path
  has been opened in the world.
\<close>

definition streaming :: "world \<Rightarrow> string \<Rightarrow> parser \<Rightarrow> parser" where
  "streaming w path p =
     start_reading (w\<lparr>files := (files w)(path \<mapsto> [])\<rparr>) (truncate_source path p)"

text \<open>What a pass over an opened destination leaves in the file.\<close>

definition pass_content :: "world \<Rightarrow> string \<Rightarrow> int \<Rightarrow> parser \<Rightarrow> chunk list" where
  "pass_content w path k p =
     [Bytes xml_declaration, Bytes root_open]
     @ map Serialized (written k (streaming w path p))
     @ (if stream_fails k (tags p) (cursor (streaming w path p)) then [] else [Bytes root_close])"

text \<open>
  A small document, read in one block, and a world that holds it, to run the program
  on; the same document with its text cut after four events.
\<close>

definition example_doc :: element where
  "example_doc =
     Element ''osm'' [] []
       [Element ''node'' [(''id'', ''1'')] [] [],
        Element ''way'' [(''id'', ''2'')] [] [Element ''nd'' [] [] []],
        Element ''node'' [(''id'', ''3'')] [] []]"

definition example_source :: xml_source where
  "example_source = \<lparr>tree = example_doc, cut = None, blocks = []\<rparr>"

definition example_broken :: xml_source where
  "example_broken = \<lparr>tree = example_doc, cut = Some 4, blocks = []\<rparr>"

definition example_world :: world where
  "example_world =
     \<lparr>dirs = {''.'', ''res''}, docs = [''res/map.osm'' \<mapsto> example_source],
      files = Map.empty\<rparr>"

text \<open>
  The parser the constructor returns for the example, without tag validation; the same
  after tag validation; and the parser and the world after the first export of
  \<open>out.osm\<close> from the validated parser.
\<close>

definition example_parser :: "string list \<Rightarrow> (string \<times> int) list option \<Rightarrow> bool option \<Rightarrow> parser" where
  "example_parser ts fs ex =
     \<lparr>source = ''res/map.osm'', cursor = tl (items example_source), unread = False,
      queued = 9, blocks_left = [], depth = 1, root = example_doc, root_live = True,
      tags = ts, export_file_map = fs, export = ex, tagValidation = False,
      rootPath = ''.''\<rparr>"

definition example_validated :: parser where
  "example_validated =
     \<lparr>source = ''res/map.osm'', cursor = [], unread = False, queued = 0, blocks_left = [],
      depth = 0, root = example_doc, root_live = True, tags = [''node''],
      export_file_map = Some [(''out.osm'', 1)], export = None, tagValidation = True,
      rootPath = ''.''\<rparr>"

definition example_reopened :: parser where
  "example_reopened = example_validated\<lparr>unread := True, root_live := False\<rparr>"

definition example_world_1 :: world where
  "example_world_1 =
     example_world\<lparr>files := [''res/out.osm'' \<mapsto>
        [Bytes xml_declaration, Bytes root_open, Bytes root_close]]\<rparr>"

text \<open>The validated parser for two destinations.\<close>

definition example_validated_two :: parser where
  "example_validated_two =
     example_validated\<lparr>export_file_map := Some [(''out.osm'', 1), (''half.osm'', 2)]\<rparr>"

text \<open>A document whose root tag is written in upper case, and its parser.\<close>

definition example_upper_source :: xml_source where
  "example_upper_source =
     \<lparr>tree = Element ''OSM'' [] [] [Element ''node'' [(''id'', ''1'')] [] []], cut = None,
      blocks = []\<rparr>"

definition example_upper_world :: world where
  "example_upper_world =
     \<lparr>dirs = {''.'', ''res''}, docs = [''res/upper.osm'' \<mapsto> example_upper_source],
      files = Map.empty\<rparr>"

definition example_upper_parser :: parser where
  "example_upper_parser =
     \<lparr>source = ''res/upper.osm'', cursor = tl (items example_upper_source), unread = False,
      queued = 3, blocks_left = [], depth = 1, root = tree example_upper_source,
      root_live = True, tags = [''node''], export_file_map = Some [(''out.osm'', 1)],
      export = None, tagValidation = False, rootPath = ''.''\<rparr>"

section \<open>Strings\<close>

lemma lower_char_o: "lower_char c = CHR ''o'' \<longleftrightarrow> c = CHR ''o'' \<or> c = CHR ''O''"
  by (auto simp: lower_char_def split: if_splits)
lemma lower_char_s: "lower_char c = CHR ''s'' \<longleftrightarrow> c = CHR ''s'' \<or> c = CHR ''S''"
  by (auto simp: lower_char_def split: if_splits)
lemma lower_char_m: "lower_char c = CHR ''m'' \<longleftrightarrow> c = CHR ''m'' \<or> c = CHR ''M''"
  by (auto simp: lower_char_def split: if_splits)

lemma lower_osm: "lower s = ''osm'' \<longleftrightarrow> s \<in> osm_spellings"
proof
  assume "lower s = ''osm''"
  then obtain a b c where s: "s = [a, b, c]"
    and "lower_char a = CHR ''o''" "lower_char b = CHR ''s''" "lower_char c = CHR ''m''"
    by (auto simp: lower_def map_eq_Cons_conv)
  then have "a = CHR ''o'' \<or> a = CHR ''O''" "b = CHR ''s'' \<or> b = CHR ''S''"
    "c = CHR ''m'' \<or> c = CHR ''M''"
    by (simp_all only: lower_char_o lower_char_s lower_char_m)
  then show "s \<in> osm_spellings"
    unfolding s osm_spellings_def by (elim disjE) simp_all
next
  assume "s \<in> osm_spellings"
  then show "lower s = ''osm''"
    unfolding osm_spellings_def
    by (elim insertE emptyE) (simp_all add: lower_def lower_char_o lower_char_s lower_char_m)
qed

lemma lower_osm_literal: "lower ''osm'' = ''osm''"
  by (simp add: lower_def lower_char_o lower_char_s lower_char_m)

lemma lower_OSM_literal: "lower ''OSM'' = ''osm''"
  by (simp add: lower_def lower_char_o lower_char_s lower_char_m)

lemma split_nonempty: "split c s \<noteq> []"
  by (induction s) (auto split: list.splits)

lemma split_append:
  "\<exists>w ws. split c (xs @ c # ys) = w # ws \<and> ws \<noteq> [] \<and> last ws = last (split c ys)"
  by (induction xs) (auto simp: split_nonempty split: list.splits)

lemma last_split_append:
  "last (split c (xs @ c # ys)) = last (split c ys)"
  using split_append [of c xs ys] by auto

lemma split_no_sep: "c \<notin> set ys \<Longrightarrow> split c ys = [ys]"
  by (induction ys) (auto split: list.splits)

lemma extension_append:
  "CHR ''.'' \<notin> set ext \<Longrightarrow> extension (base @ ''.'' @ ext) = ext"
  by (simp add: extension_def last_split_append split_no_sep)

section \<open>The event stream of a document\<close>

lemma yielded_events:
  "yielded ts (map (\<lambda>(k, e). Ev k e) evs) =
     filter (\<lambda>e. tag e \<in> set ts) (map snd (filter (\<lambda>ke. fst ke = End) evs))"
  by (induction evs) auto

lemma ends_of_events:
  "map snd (filter (\<lambda>ke. fst ke = End) (events e)) = closing_order e"
proof (induction e)
  case (Element t a x cs)
  have "map (\<lambda>c. map snd (filter (\<lambda>ke. fst ke = End) (events c))) cs = map closing_order cs"
    by (rule map_cong [OF refl]) (simp add: Element.IH)
  then have eq: "concat (map (\<lambda>c. map snd (filter (\<lambda>ke. fst ke = End) (events c))) cs)
                 = concat (map closing_order cs)"
    by (rule arg_cong)
  show ?case
    by (simp add: filter_concat map_concat comp_def eq)
qed

lemma events_Cons: "events e = (Start, e) # tl (events e)"
  by (cases e) simp

lemma yielded_fresh:
  "cut s = None \<Longrightarrow> yielded ts (items s) = filtered ts (tree s)"
  by (simp add: items_def yielded_events ends_of_events filtered_def)

lemma items_fresh:
  "cut s = None \<Longrightarrow> items s = Ev Start (tree s) # map (\<lambda>(k, e). Ev k e) (tl (events (tree s)))"
proof -
  assume c: "cut s = None"
  have "map (\<lambda>(k, e). Ev k e) (events (tree s)) = map (\<lambda>(k, e). Ev k e) ((Start, tree s) # tl (events (tree s)))"
    using events_Cons [of "tree s"] by simp
  with c show ?thesis by (simp add: items_def)
qed

lemma yielded_after_root:
  "cut s = None \<Longrightarrow> yielded ts (tl (items s)) = filtered ts (tree s)"
proof -
  assume c: "cut s = None"
  have "yielded ts (items s) = yielded ts (tl (items s))"
    by (simp add: items_fresh [OF c])
  with c show ?thesis by (simp add: yielded_fresh)
qed

lemma Malformed_fresh: "cut s = None \<Longrightarrow> Malformed \<notin> set (items s)"
  by (auto simp: items_def)

lemma Malformed_cut: "cut s = Some n \<Longrightarrow> Malformed \<in> set (items s)"
  by (auto simp: items_def)

lemma all_tags_eq:
  "all_tags c acc =
     (if Malformed \<in> set c then Inl ParseError
      else Inr (acc \<union> {tag e | k e. Ev k e \<in> set c}))"
  by (induction c acc rule: all_tags.induct) auto

lemma set_events: "snd ` set (events e) = set (closing_order e)"
proof (induction e)
  case (Element t a x cs)
  then show ?case by (auto simp: image_Un image_UN)
qed

lemma set_tl_events: "snd ` set (tl (events e)) = set (closing_order e)"
proof (cases e)
  case (Element t a x cs)
  have "snd ` set (tl (events e)) = snd ` set (events e)"
    unfolding Element by auto
  then show ?thesis by (simp add: set_events)
qed

section \<open>Sampling\<close>

lemma ceil_div_mult:
  assumes "0 < n"
  shows "ceil_div (q * n) n = q"
proof -
  have "q * n + n - 1 = q * n + (n - 1)" using assms by simp
  then have "ceil_div (q * n) n = (q * n + (n - 1)) div n"
    by (simp only: ceil_div_def)
  also have "\<dots> = q + (n - 1) div n"
    using assms div_mult_self3 [of n q "n - 1"] by simp
  also have "\<dots> = q" using assms by simp
  finally show ?thesis .
qed

lemma ceil_div_Suc:
  assumes "0 < n"
  shows "ceil_div (Suc m) n = (if m mod n = 0 then Suc (ceil_div m n) else ceil_div m n)"
proof -
  have a: "ceil_div (Suc m) n = Suc (m div n)"
    using assms div_add_self2 [of n m] by (simp add: ceil_div_def)
  show ?thesis
  proof (cases "m mod n = 0")
    case True
    define q where "q = m div n"
    have q: "m = q * n" using True div_mult_mod_eq [of m n] by (simp add: q_def)
    have "ceil_div m n = q" using assms q ceil_div_mult by simp
    with a q assms True show ?thesis by simp
  next
    case False
    then have "0 < m" by (cases m) auto
    then obtain k where k: "m = Suc k" by (cases m) auto
    have "m + n - 1 = k + n" using k by simp
    then have "ceil_div m n = Suc (k div n)"
      using assms div_add_self2 [of n k] by (simp add: ceil_div_def)
    moreover have "m div n = k div n" using False k by (simp add: div_Suc)
    ultimately show ?thesis using a False by simp
  qed
qed

lemma multiples_below:
  "0 < n \<Longrightarrow> filter (\<lambda>j. j mod n = 0) [0..<m] = map (\<lambda>k. k * n) [0..<ceil_div m n]"
proof (induction m)
  case 0
  then show ?case by (simp add: ceil_div_def)
next
  case (Suc m)
  show ?case
  proof (cases "m mod n = 0")
    case True
    define q where "q = m div n"
    have q: "m = q * n" using True div_mult_mod_eq [of m n] by (simp add: q_def)
    have "ceil_div m n = q" using Suc.prems q ceil_div_mult by simp
    with q have "m = ceil_div m n * n" by simp
    with Suc True show ?thesis by (simp add: ceil_div_Suc)
  next
    case False
    with Suc show ?thesis by (simp add: ceil_div_Suc)
  qed
qed

lemma sampled_filter:
  "sampled f i xs = map (\<lambda>j. xs ! j) (filter (\<lambda>j. int (i + j) mod f = 0) [0..<length xs])"
proof (induction xs arbitrary: i)
  case Nil
  then show ?case by simp
next
  case (Cons x xs)
  have "[0..<length (x # xs)] = 0 # map Suc [0..<length xs]"
    by (simp add: upt_conv_Cons map_Suc_upt del: upt_Suc)
  then show ?case
    using Cons.IH [of "Suc i"] by (simp add: filter_map comp_def add.assoc add.left_commute del: upt_Suc)
qed

lemma sampled_every_nth:
  assumes "0 < n"
  shows "sampled (int n) 0 xs = every_nth n xs"
proof -
  have "(\<lambda>j. int (0 + j) mod int n = 0) = (\<lambda>j. j mod n = 0)"
    by (auto simp flip: of_nat_mod)
  then have "sampled (int n) 0 xs = map (\<lambda>j. xs ! j) (filter (\<lambda>j. j mod n = 0) [0..<length xs])"
    by (simp only: sampled_filter)
  also have "\<dots> = every_nth n xs"
    using assms by (simp add: multiples_below every_nth_def comp_def)
  finally show ?thesis .
qed

section \<open>The writing loop\<close>

lemma get_element_Inl:
  "get_element ts d q bs c = Inl e \<Longrightarrow> e = ParseError \<and> yielded ts c = [] \<and> Malformed \<in> set c"
  by (induction ts d q bs c rule: get_element.induct) (auto split: if_splits)

lemma get_element_None:
  "get_element ts d q bs c = Inr None \<Longrightarrow> yielded ts c = [] \<and> Malformed \<notin> set c"
  by (induction ts d q bs c rule: get_element.induct) (auto split: if_splits)

lemma get_element_Some:
  "get_element ts d q bs c = Inr (Some (e, d1, q1, bs1, rest)) \<Longrightarrow>
     yielded ts c = e # yielded ts rest \<and> (Malformed \<in> set c \<longleftrightarrow> Malformed \<in> set rest)"
  by (induction ts d q bs c rule: get_element.induct) (auto split: if_splits)

lemma get_element_states_Inl:
  "get_element ts d q bs c = Inl e \<Longrightarrow> yielded_states ts live r d q bs c = []"
  by (induction ts d q bs c rule: get_element.induct) (auto split: if_splits)

lemma get_element_states_None:
  "get_element ts d q bs c = Inr None \<Longrightarrow> yielded_states ts live r d q bs c = []"
  by (induction ts d q bs c rule: get_element.induct) (auto split: if_splits)

lemma get_element_states_Some:
  "get_element ts d q bs c = Inr (Some (e, d1, q1, bs1, rest)) \<Longrightarrow>
     yielded_states ts live r d q bs c =
       (if live \<and> d1 = 0 then r else e)
       # yielded_states ts live
           (Element (tag r) [] [] (if live then unread_children q1 d1 rest else []))
           d1 q1 bs1 rest"
  by (induction ts d q bs c rule: get_element.induct) (auto split: if_splits)

lemma yielded_states_not_live: "yielded_states ts False r d q bs c = yielded ts c"
  by (induction c arbitrary: r d q bs rule: yielded.induct) auto

lemma length_yielded_states: "length (yielded_states ts live r d q bs c) = length (yielded ts c)"
  by (induction ts c arbitrary: r d q bs rule: yielded.induct) auto

lemma write_elements_zero:
  "write_elements 0 i p out =
     (case get_element (tags p) (depth p) (queued p) (blocks_left p) (cursor p) of
        Inl e \<Rightarrow> (Inl e, p\<lparr>cursor := []\<rparr>, out)
      | Inr None \<Rightarrow> (Inr (), p\<lparr>cursor := []\<rparr>, out)
      | Inr (Some (e, d, q, bs, rest)) \<Rightarrow>
          (Inl ZeroDivisionError,
           p\<lparr>cursor := rest, queued := q, blocks_left := bs, depth := d\<rparr>, out))"
  by (simp add: write_elements.simps [of 0 i p out] split: sum.splits option.splits)

lemma write_elements_fst:
  "fst (write_elements factor i p out) =
     (if factor = 0 \<and> yielded (tags p) (cursor p) \<noteq> [] then Inl ZeroDivisionError
      else if Malformed \<in> set (cursor p) then Inl ParseError
      else Inr ())"
proof (induction factor i p out rule: write_elements.induct)
  case (1 factor i p out)
  show ?case
  proof (cases "get_element (tags p) (depth p) (queued p) (blocks_left p) (cursor p)")
    case (Inl e)
    with get_element_Inl [OF Inl] show ?thesis
      by (simp add: write_elements.simps [of factor i p out])
  next
    case (Inr r)
    show ?thesis
    proof (cases r)
      case None
      with Inr get_element_None [of "tags p" "depth p" "queued p" "blocks_left p" "cursor p"]
      show ?thesis
        by (simp add: write_elements.simps [of factor i p out])
    next
      case (Some x)
      obtain e d q bs rest where x: "x = (e, d, q, bs, rest)" by (cases x)
      have g: "get_element (tags p) (depth p) (queued p) (blocks_left p) (cursor p)
                 = Inr (Some (e, d, q, bs, rest))"
        using Inr Some x by simp
      note ys = get_element_Some [OF g]
      show ?thesis
      proof (cases "factor = 0")
        case True
        with ys g show ?thesis
          by (simp add: write_elements_zero)
      next
        case False
        with "1.IH" [OF Inr Some x [symmetric] refl refl refl False] ys g
        show ?thesis
          by (simp add: write_elements.simps [of factor i p out])
      qed
    qed
  qed
qed

lemma write_elements_out:
  "snd (snd (write_elements factor i p out)) =
     out @ map Serialized
       (if factor = 0 then []
        else sampled factor i
               (yielded_states (tags p) (root_live p) (root p) (depth p) (queued p)
                  (blocks_left p) (cursor p)))"
proof (induction factor i p out rule: write_elements.induct)
  case (1 factor i p out)
  show ?case
  proof (cases "get_element (tags p) (depth p) (queued p) (blocks_left p) (cursor p)")
    case (Inl e)
    with get_element_states_Inl [OF Inl] show ?thesis
      by (simp add: write_elements.simps [of factor i p out])
  next
    case (Inr r)
    show ?thesis
    proof (cases r)
      case None
      with Inr get_element_states_None
        [of "tags p" "depth p" "queued p" "blocks_left p" "cursor p"]
      show ?thesis
        by (simp add: write_elements.simps [of factor i p out])
    next
      case (Some x)
      obtain e d q bs rest where x: "x = (e, d, q, bs, rest)" by (cases x)
      have g: "get_element (tags p) (depth p) (queued p) (blocks_left p) (cursor p)
                 = Inr (Some (e, d, q, bs, rest))"
        using Inr Some x by simp
      note ys = get_element_states_Some [OF g, of "root_live p" "root p"]
      show ?thesis
      proof (cases "factor = 0")
        case True
        with g show ?thesis
          by (simp add: write_elements_zero)
      next
        case False
        with "1.IH" [OF Inr Some x [symmetric] refl refl refl False] ys g
        show ?thesis
          by (simp add: write_elements.simps [of factor i p out] clear_root_def)
      qed
    qed
  qed
qed

lemma write_elements_fields:
  "source (fst (snd (write_elements factor i p out))) = source p
   \<and> tags (fst (snd (write_elements factor i p out))) = tags p
   \<and> unread (fst (snd (write_elements factor i p out))) = unread p
   \<and> root_live (fst (snd (write_elements factor i p out))) = root_live p
   \<and> tag (root (fst (snd (write_elements factor i p out)))) = tag (root p)
   \<and> export_file_map (fst (snd (write_elements factor i p out))) = export_file_map p
   \<and> export (fst (snd (write_elements factor i p out))) = export p
   \<and> tagValidation (fst (snd (write_elements factor i p out))) = tagValidation p
   \<and> rootPath (fst (snd (write_elements factor i p out))) = rootPath p"
proof (induction factor i p out rule: write_elements.induct)
  case (1 factor i p out)
  show ?case
  proof (cases "get_element (tags p) (depth p) (queued p) (blocks_left p) (cursor p)")
    case (Inl e)
    then show ?thesis
      by (simp add: write_elements.simps [of factor i p out])
  next
    case (Inr r)
    show ?thesis
    proof (cases r)
      case None
      with Inr show ?thesis
        by (simp add: write_elements.simps [of factor i p out])
    next
      case (Some x)
      obtain e d q bs rest where x: "x = (e, d, q, bs, rest)" by (cases x)
      have g: "get_element (tags p) (depth p) (queued p) (blocks_left p) (cursor p)
                 = Inr (Some (e, d, q, bs, rest))"
        using Inr Some x by simp
      show ?thesis
      proof (cases "factor = 0")
        case True
        with g show ?thesis
          by (simp add: write_elements_zero)
      next
        case False
        with "1.IH" [OF Inr Some x [symmetric] refl refl refl False] g
        show ?thesis
          by (simp add: write_elements.simps [of factor i p out] clear_root_def)
      qed
    qed
  qed
qed

section \<open>One export pass\<close>

lemma open_wb_writable:
  "writable w path \<Longrightarrow> open_wb w path = Inr (w\<lparr>files := (files w)(path \<mapsto> [])\<rparr>)"
  by (auto simp: writable_def open_wb_def)

lemma open_wb_not_writable:
  "\<not> writable w path \<Longrightarrow> \<exists>e. open_wb w path = Inl e"
  by (auto simp: writable_def open_wb_def)

lemma tags_streaming: "tags (streaming w path p) = tags p"
  by (simp add: streaming_def start_reading_def truncate_source_def split: option.splits)

lemma source_streaming: "source (streaming w path p) = source p"
  by (simp add: streaming_def start_reading_def truncate_source_def split: option.splits)

lemma iterparse_written:
  "iterparse (w\<lparr>files := (files w)(path \<mapsto> cs)\<rparr>) src =
     (if src = path \<or> file_source w src \<noteq> None then Inr ()
      else if src \<in> dirs w then Inl IsADirectoryError
      else Inl FileNotFoundError)"
  by (auto simp: iterparse_def file_source_def split: option.splits)

lemma export_one_world:
  assumes "extension f = ''osm''" and "writable w (path_join d f)"
  shows "snd (snd (export_one d (f, k) p w)) =
     w\<lparr>files := (files w)(path_join d f \<mapsto> pass_content w (path_join d f) k p)\<rparr>"
proof -
  define p0 where "p0 = streaming w (path_join d f) p"
  obtain r p1 out where we:
    "write_elements k 0 p0 [Bytes xml_declaration, Bytes root_open] = (r, p1, out)"
    by (cases "write_elements k 0 p0 [Bytes xml_declaration, Bytes root_open]") auto
  have r: "r = (if k = 0 \<and> yielded (tags p0) (cursor p0) \<noteq> [] then Inl ZeroDivisionError
      else if Malformed \<in> set (cursor p0) then Inl ParseError else Inr ())"
    using write_elements_fst [of k 0 p0 "[Bytes xml_declaration, Bytes root_open]"] we by simp
  have out: "out = [Bytes xml_declaration, Bytes root_open] @ map Serialized (written k p0)"
    using write_elements_out [of k 0 p0 "[Bytes xml_declaration, Bytes root_open]"] we
    by (simp add: written_def)
  have t: "tags p0 = tags p" by (simp add: p0_def tags_streaming)
  show ?thesis
    using assms we
    by (auto simp: export_one_def Let_def open_wb_writable write_file_def r out t
          stream_fails_def pass_content_def p0_def [symmetric] streaming_def [symmetric]
          split: sum.splits)
qed

lemma export_one_file:
  assumes "extension f = ''osm''" and "writable w (path_join d f)"
  shows "files (snd (snd (export_one d (f, k) p w))) (path_join d f) =
     Some (pass_content w (path_join d f) k p)"
  by (simp add: export_one_world [OF assms])

lemma export_one_fst:
  assumes "extension f = ''osm''" and "writable w (path_join d f)"
  shows "fst (export_one d (f, k) p w) =
     (if k = 0 \<and> yielded (tags p) (cursor (streaming w (path_join d f) p)) \<noteq> []
      then Inl ZeroDivisionError
      else if Malformed \<in> set (cursor (streaming w (path_join d f) p)) then Inl ParseError
      else if source p = path_join d f \<or> file_source w (source p) \<noteq> None then Inr ()
      else if source p \<in> dirs w then Inl IsADirectoryError
      else Inl FileNotFoundError)"
proof -
  define p0 where "p0 = streaming w (path_join d f) p"
  obtain r p1 out where we:
    "write_elements k 0 p0 [Bytes xml_declaration, Bytes root_open] = (r, p1, out)"
    by (cases "write_elements k 0 p0 [Bytes xml_declaration, Bytes root_open]") auto
  have r: "r = (if k = 0 \<and> yielded (tags p0) (cursor p0) \<noteq> [] then Inl ZeroDivisionError
      else if Malformed \<in> set (cursor p0) then Inl ParseError else Inr ())"
    using write_elements_fst [of k 0 p0 "[Bytes xml_declaration, Bytes root_open]"] we by simp
  have src: "source p1 = source p"
    using write_elements_fields [of k 0 p0 "[Bytes xml_declaration, Bytes root_open]"] we
    by (simp add: p0_def source_streaming)
  have t: "tags p0 = tags p" by (simp add: p0_def tags_streaming)
  show ?thesis
    using assms we
    by (auto simp: export_one_def Let_def open_wb_writable write_file_def r src t
          iterparse_written p0_def [symmetric] streaming_def [symmetric]
          split: sum.splits)
qed

lemma export_one_parser:
  assumes "fst (export_one d (f, k) p w) = Inr ()"
  shows "unread (fst (snd (export_one d (f, k) p w)))
     \<and> \<not> root_live (fst (snd (export_one d (f, k) p w)))
     \<and> cursor (fst (snd (export_one d (f, k) p w))) = []
     \<and> source (fst (snd (export_one d (f, k) p w))) = source p
     \<and> tags (fst (snd (export_one d (f, k) p w))) = tags p
     \<and> tag (root (fst (snd (export_one d (f, k) p w)))) = tag (root p)
     \<and> export_file_map (fst (snd (export_one d (f, k) p w))) = export_file_map p
     \<and> rootPath (fst (snd (export_one d (f, k) p w))) = rootPath p"
proof -
  define p0 where "p0 = start_reading (w\<lparr>files := (files w)(path_join d f \<mapsto> [])\<rparr>)
      (truncate_source (path_join d f) p)"
  obtain r p1 out where we:
    "write_elements k 0 p0 [Bytes xml_declaration, Bytes root_open] = (r, p1, out)"
    by (cases "write_elements k 0 p0 [Bytes xml_declaration, Bytes root_open]") auto
  have f0: "source p0 = source p \<and> tags p0 = tags p \<and> tag (root p0) = tag (root p)
      \<and> export_file_map p0 = export_file_map p \<and> rootPath p0 = rootPath p"
    by (simp add: p0_def start_reading_def truncate_source_def split: option.splits)
  have f1: "source p1 = source p0 \<and> tags p1 = tags p0 \<and> tag (root p1) = tag (root p0)
      \<and> export_file_map p1 = export_file_map p0 \<and> rootPath p1 = rootPath p0"
    using write_elements_fields [of k 0 p0 "[Bytes xml_declaration, Bytes root_open]"] we
    by simp
  show ?thesis
    using assms we f0 f1
    by (auto simp: export_one_def Let_def open_wb_def p0_def [symmetric]
          split: sum.splits if_splits)
qed

lemma export_one_Inr:
  "fst (export_one d (f, k) p w) = Inr () \<Longrightarrow> extension f = ''osm'' \<and> writable w (path_join d f)"
  using open_wb_not_writable [of w "path_join d f"]
  by (auto simp: export_one_def Let_def split: if_splits sum.splits)

section \<open>Running the example\<close>

lemma items_example:
  "items example_source =
     [Ev Start example_doc,
      Ev Start (Element ''node'' [(''id'', ''1'')] [] []),
      Ev End (Element ''node'' [(''id'', ''1'')] [] []),
      Ev Start (Element ''way'' [(''id'', ''2'')] [] [Element ''nd'' [] [] []]),
      Ev Start (Element ''nd'' [] [] []),
      Ev End (Element ''nd'' [] [] []),
      Ev End (Element ''way'' [(''id'', ''2'')] [] [Element ''nd'' [] [] []]),
      Ev Start (Element ''node'' [(''id'', ''3'')] [] []),
      Ev End (Element ''node'' [(''id'', ''3'')] [] []),
      Ev End example_doc]"
  by (simp add: items_def example_source_def example_doc_def)

lemma items_broken:
  "items example_broken =
     [Ev Start example_doc,
      Ev Start (Element ''node'' [(''id'', ''1'')] [] []),
      Ev End (Element ''node'' [(''id'', ''1'')] [] []),
      Ev Start (Element ''way'' [(''id'', ''2'')] [] [Element ''nd'' [] [] []]),
      Malformed]"
  by (simp add: items_def example_broken_def example_doc_def eval_nat_numeral)

lemma tag_example_doc: "tag example_doc = ''osm''"
  by (simp add: example_doc_def)

lemma file_source_example: "file_source example_world ''res/map.osm'' = Some example_source"
  by (simp add: file_source_def example_world_def)

lemma path_join_res: "path_join ''res'' ''out.osm'' = ''res/out.osm''"
  by (simp add: path_join_def)

lemma writable_res: "writable example_world ''res/out.osm''"
  by (simp add: writable_def example_world_def dirname_def)

lemma extension_out: "extension ''out.osm'' = ''osm''"
  by (simp add: extension_def)

section \<open>Root validation\<close>

text \<open>
  C5: root validation reads the first parse event and succeeds exactly when the tag of
  that first element is \<open>osm\<close> in some mix of upper and lower case; the event is
  consumed and the element becomes the root. Otherwise it fails with the
  \<^verbatim>\<open>ValueError\<close> of the root check (the format error of the specification).
\<close>

theorem check_root_iff:
  "check_root (Ev k e # rest) =
     (if tag e \<in> osm_spellings then Inr (e, rest)
      else Inl (ValueError ''OpenStreetDataMap Error''))"
  by (simp add: check_root_def lower_osm)

section \<open>Extension checks\<close>

lemma export_all_append:
  "export_all d (pre @ post) p w =
     (case export_all d pre p w of
        (Inl e, p1, w1) \<Rightarrow> (Inl e, p1, w1)
      | (Inr u, p1, w1) \<Rightarrow> export_all d post p1 w1)"
  by (induction pre arbitrary: p w) (auto split: prod.splits sum.splits)

lemma extension_upper: "extension (base @ ''.OSM'') = ''OSM''"
  using extension_append [of "''OSM''" base] by simp

text \<open>
  C10: the destination check compares the last dot-separated component with \<open>osm\<close>
  as it is written, the source check compares it in lower case. When the export reaches
  an entry whose name does not end in exactly \<open>osm\<close> (the root path exists and the
  entries before it were exported), it fails with the \<^verbatim>\<open>ValueError\<close> of the
  extension check, and the parser and the world are what the earlier entries left: the
  destination is not opened. A name ending in \<open>.OSM\<close> is such a destination, and as a
  source path it passes the extension check of \<^verbatim>\<open>ParserXML.__init__\<close>.
\<close>

theorem extension_checks:
  "(path_exists w (rootPath p) \<and> export_file_map p = Some (pre @ (name, k) # post)
      \<and> extension name \<noteq> ''osm'' \<longrightarrow>
    export_dataset d p w =
      (case export_all d pre p w of
         (Inl e, p1, w1) \<Rightarrow> (Inl e, p1, w1)
       | (Inr u, p1, w1) \<Rightarrow> (Inl (ValueError ''Export files must OSM type''), p1, w1)))
   \<and> extension (base @ ''.OSM'') \<noteq> ''osm''
   \<and> ParserXML_init res w (base @ ''.OSM'') =
       (case iterparse w (path_join res (base @ ''.OSM'')) of
          Inl e \<Rightarrow> Inl e
        | Inr u \<Rightarrow>
            (case file_source w (path_join res (base @ ''.OSM'')) of
               None \<Rightarrow> Inl FileNotFoundError
             | Some s \<Rightarrow>
                 (case check_root (items s) of
                    Inl e \<Rightarrow> Inl e
                  | Inr (r, rest) \<Rightarrow>
                      Inr (path_join res (base @ ''.OSM''), r, rest,
                           fst (refill (length (items s)) 0 (blocks s)) - 1,
                           snd (refill (length (items s)) 0 (blocks s))))))"
  by (auto simp: export_dataset_def export_all_append export_one_def extension_upper
        ParserXML_init_def lower_OSM_literal split: prod.splits sum.splits)

theorem extension_checks_witness:
  "path_exists example_world ''.''
   \<and> extension ''out.OSM'' \<noteq> ''osm''
   \<and> export_dataset ''res''
         (example_parser [''node''] (Some [(''out.OSM'', 1)]) None) example_world =
       (Inl (ValueError ''Export files must OSM type''),
        example_parser [''node''] (Some [(''out.OSM'', 1)]) None, example_world)"
  using extension_checks [where w = example_world
      and p = "example_parser [''node''] (Some [(''out.OSM'', 1)]) None"
      and pre = "[]" and name = "''out.OSM''" and k = 1 and post = "[]"
      and d = "''res''" and base = "''out''"]
  by (simp add: example_parser_def path_exists_def example_world_def)

section \<open>Validation of the export options\<close>

lemma check_export_eq:
  "check_export p =
     (if truthy (export p) \<and> export_file_map p = None
      then Inl (ValueError ''Export value and export_files doesn't match'') else Inr ())"
  by (auto simp: check_export_def truthy_def split: option.splits)

lemma ParserXML_init_example:
  "ParserXML_init ''res'' example_world ''map.osm'' =
     Inr (''res/map.osm'', example_doc, tl (items example_source), 9, [])"
proof -
  have "blocks example_source = []" by (simp add: example_source_def)
  then show ?thesis
    by (simp add: ParserXML_init_def extension_def lower_osm_literal path_join_def
        iterparse_def file_source_example items_example check_root_def tag_example_doc)
qed

text \<open>
  C2: the constructor is called with the stride map \<^verbatim>\<open>files\<close> and without the
  \<^verbatim>\<open>export\<close> option. The claim asks for the \<^verbatim>\<open>ValueError\<close> of the mismatch; the
  constructor returns the object.
\<close>

theorem strides_without_target_accepted:
  "DataFramerXML_init ''res'' example_world ''map.osm'' [''node''] (Some [(''out.osm'', 10)])
     None False ''.'' = Inr (example_parser [''node''] (Some [(''out.osm'', 10)]) None)"
  by (simp add: DataFramerXML_init_def ParserXML_init_example validate_def check_export_def
        truthy_def check_tags_def example_parser_def)

section \<open>The closing root tag\<close>

lemma not_unread_streaming:
  "\<not> unread p \<Longrightarrow> source p \<noteq> path \<Longrightarrow> streaming w path p = p"
  by (simp add: streaming_def start_reading_def truncate_source_def)

text \<open>
  C7: in an export pass whose destination has been opened, the closing root tag is
  written exactly when the element stream was exhausted without a failure. When the
  stream fails (a parse error, or a division by a zero factor), the pass ends with that
  error, the file holds the declaration, the opening root tag and the elements written
  so far, and the closing root tag is not among its writes.
\<close>

theorem closing_tag_only_after_exhaustion:
  assumes "extension f = ''osm''" and "writable w (path_join d f)"
  shows "(stream_fails k (tags p) (cursor (streaming w (path_join d f) p)) \<longrightarrow>
           fst (export_one d (f, k) p w) =
             Inl (if k = 0 \<and> yielded (tags p) (cursor (streaming w (path_join d f) p)) \<noteq> []
                  then ZeroDivisionError else ParseError)
           \<and> files (snd (snd (export_one d (f, k) p w))) (path_join d f) =
               Some ([Bytes xml_declaration, Bytes root_open]
                     @ map Serialized (written k (streaming w (path_join d f) p)))
           \<and> Bytes root_close \<notin>
               set ([Bytes xml_declaration, Bytes root_open]
                    @ map Serialized (written k (streaming w (path_join d f) p))))
       \<and> (\<not> stream_fails k (tags p) (cursor (streaming w (path_join d f) p)) \<longrightarrow>
           files (snd (snd (export_one d (f, k) p w))) (path_join d f) =
             Some ([Bytes xml_declaration, Bytes root_open]
                   @ map Serialized (written k (streaming w (path_join d f) p))
                   @ [Bytes root_close]))"
proof -
  have "xml_declaration \<noteq> root_close" "root_open \<noteq> root_close"
    by (simp_all add: xml_declaration_def root_open_def root_close_def)
  then have "Bytes root_close \<notin>
      set ([Bytes xml_declaration, Bytes root_open]
           @ map Serialized (written k (streaming w (path_join d f) p)))"
    by auto
  then show ?thesis
    using export_one_file [OF assms, of k p] export_one_fst [OF assms, of k p]
    by (auto simp: stream_fails_def pass_content_def)
qed

theorem closing_tag_only_after_exhaustion_witness:
  "extension ''out.osm'' = ''osm''
   \<and> writable example_world (path_join ''res'' ''out.osm'')
   \<and> stream_fails 1 [''node''] (tl (items example_broken))
   \<and> fst (export_one ''res'' (''out.osm'', 1)
             ((example_parser [''node''] None None)
                \<lparr>cursor := tl (items example_broken), queued := 4\<rparr>) example_world)
       = Inl ParseError
   \<and> files (snd (snd (export_one ''res'' (''out.osm'', 1)
             ((example_parser [''node''] None None)
                \<lparr>cursor := tl (items example_broken), queued := 4\<rparr>) example_world)))
         ''res/out.osm''
       = Some [Bytes xml_declaration, Bytes root_open,
               Serialized (Element ''node'' [(''id'', ''1'')] [] [])]"
proof -
  have s: "streaming example_world ''res/out.osm''
      ((example_parser [''node''] None None)\<lparr>cursor := tl (items example_broken), queued := 4\<rparr>)
      = (example_parser [''node''] None None)\<lparr>cursor := tl (items example_broken), queued := 4\<rparr>"
    by (rule not_unread_streaming) (simp_all add: example_parser_def)
  show ?thesis
    using closing_tag_only_after_exhaustion [where f = "''out.osm''" and w = example_world
      and d = "''res''" and k = 1
      and p = "(example_parser [''node''] None None)
                 \<lparr>cursor := tl (items example_broken), queued := 4\<rparr>"]
    by (simp add: extension_out path_join_res writable_res s)
       (simp add: stream_fails_def items_broken example_parser_def written_def)
qed

section \<open>Tag validation\<close>

lemma tags_of_fresh:
  assumes "cut s = None"
  shows "all_tags (tl (items s)) {} = Inr (tag ` set (closing_order (tree s)))"
proof -
  have "{tag e | k e. Ev k e \<in> set (tl (items s))} = tag ` snd ` set (tl (events (tree s)))"
    by (force simp: items_fresh [OF assms])
  then show ?thesis
    using Malformed_fresh [OF assms] 
    by (simp add: all_tags_eq set_tl_events items_fresh [OF assms])
qed

lemma tags_example:
  "tag ` set (closing_order example_doc) = {''osm'', ''node'', ''way'', ''nd''}"
  by (auto simp: example_doc_def)

text \<open>
  C3: for a well-formed source with an accepted name and root and consistent export
  options, construction with tag validation enabled raises the \<^verbatim>\<open>ValueError\<close> of
  the tag check exactly when some tag of the filter is not the tag of any element of the
  source; when every tag is present the object is returned. The constructor writes
  nothing: the world is not among its results, so no output file has been opened.
\<close>

theorem tag_vocabulary_validation:
  assumes "file_source w (path_join res osmFile) = Some s" and "cut s = None"
    and "lower (extension osmFile) = ''osm''" and "lower (tag (tree s)) = ''osm''"
    and "\<not> (truthy ex \<and> fs = None)"
  shows "DataFramerXML_init res w osmFile ts fs ex True rp =
     (if set ts \<subseteq> tag ` set (closing_order (tree s))
      then Inr \<lparr>source = path_join res osmFile, cursor = [], unread = False, queued = 0,
                blocks_left = [], depth = 0, root = tree s, root_live = True, tags = ts,
                export_file_map = fs, export = ex, tagValidation = True, rootPath = rp\<rparr>
      else Inl (ValueError ''Given tags are not present in XML''))"
proof -
  have init: "ParserXML_init res w osmFile =
      Inr (path_join res osmFile, tree s, tl (items s),
           fst (refill (length (items s)) 0 (blocks s)) - 1,
           snd (refill (length (items s)) 0 (blocks s)))"
    using assms by (simp add: ParserXML_init_def iterparse_def check_root_def items_fresh)
  show ?thesis
    using assms(5)
    by (auto simp: DataFramerXML_init_def init validate_def check_export_eq check_tags_def
          tags_of_fresh [OF assms(2)])
qed

theorem tag_vocabulary_validation_witness:
  "file_source example_world (path_join ''res'' ''map.osm'') = Some example_source
   \<and> lower (extension ''map.osm'') = ''osm''
   \<and> lower (tag example_doc) = ''osm''
   \<and> DataFramerXML_init ''res'' example_world ''map.osm'' [''node'', ''relation''] None None
         True ''.'' = Inl (ValueError ''Given tags are not present in XML'')"
proof -
  have p: "path_join ''res'' ''map.osm'' = ''res/map.osm''" by (simp add: path_join_def)
  have c: "cut example_source = None" "tree example_source = example_doc"
    by (simp_all add: example_source_def)
  show ?thesis
    using tag_vocabulary_validation [where w = example_world and res = "''res''"
      and osmFile = "''map.osm''" and s = example_source
      and ts = "[''node'', ''relation'']" and fs = None and ex = None and rp = "''.''"]
    by (simp add: p c file_source_example extension_def lower_osm_literal tags_example
        truthy_def tag_example_doc)
qed

section \<open>Export after tag validation\<close>

lemma init_validated_example:
  "DataFramerXML_init ''res'' example_world ''map.osm'' [''node''] (Some [(''out.osm'', 1)])
     None True ''.'' = Inr example_validated"
  by (simp add: DataFramerXML_init_def ParserXML_init_example validate_def check_export_def
        truthy_def check_tags_def items_example example_validated_def)

lemma first_pass:
  "export_one ''res'' (''out.osm'', 1) example_validated example_world =
     (Inr (), example_reopened, example_world_1)"
  by (simp add: example_validated_def example_world_def example_source_def
        export_one_def Let_def extension_out path_join_res open_wb_def dirname_def
        truncate_source_def start_reading_def file_source_def
        write_elements.simps iterparse_def example_reopened_def example_world_1_def
        write_file_def)

lemma first_call:
  "export_dataset ''res'' example_validated example_world =
     (Inr (), example_reopened, example_world_1)"
proof -
  have "path_exists example_world (rootPath example_validated)"
    by (simp add: path_exists_def example_validated_def example_world_def)
  moreover have "export_file_map example_validated = Some [(''out.osm'', 1)]"
    by (simp add: example_validated_def)
  ultimately show ?thesis
    by (simp add: export_dataset_def first_pass)
qed

lemma second_pass:
  "export_one ''res'' (''out.osm'', 1) example_reopened example_world_1 =
     (Inr (), example_reopened\<lparr>root := Element ''osm'' [] [] []\<rparr>,
      example_world\<lparr>files := [''res/out.osm'' \<mapsto>
        [Bytes xml_declaration, Bytes root_open,
         Serialized (Element ''node'' [(''id'', ''1'')] [] []),
         Serialized (Element ''node'' [(''id'', ''3'')] [] []),
         Bytes root_close]]\<rparr>)"
proof -
  have b: "blocks example_source = []" by (simp add: example_source_def)
  show ?thesis
    by (simp add: example_reopened_def example_validated_def example_world_1_def
        example_world_def export_one_def Let_def extension_out path_join_res open_wb_def
        dirname_def truncate_source_def start_reading_def file_source_def items_example b
        write_elements.simps iterparse_def write_file_def clear_root_def tag_example_doc)
qed

lemma second_call:
  "export_dataset ''res'' example_reopened example_world_1 =
     (Inr (), example_reopened\<lparr>root := Element ''osm'' [] [] []\<rparr>,
      example_world\<lparr>files := [''res/out.osm'' \<mapsto>
        [Bytes xml_declaration, Bytes root_open,
         Serialized (Element ''node'' [(''id'', ''1'')] [] []),
         Serialized (Element ''node'' [(''id'', ''3'')] [] []),
         Bytes root_close]]\<rparr>)"
proof -
  have "path_exists example_world_1 (rootPath example_reopened)"
    by (simp add: path_exists_def example_reopened_def example_validated_def
          example_world_1_def example_world_def)
  moreover have "export_file_map example_reopened = Some [(''out.osm'', 1)]"
    by (simp add: example_reopened_def example_validated_def)
  ultimately show ?thesis
    by (simp add: export_dataset_def second_pass)
qed

lemma filtered_example:
  "filtered [''node''] example_doc =
     [Element ''node'' [(''id'', ''1'')] [] [], Element ''node'' [(''id'', ''3'')] [] []]"
  by (simp add: filtered_def example_doc_def)

text \<open>
  C1: the exporter is built with tag validation for the example document, the filter
  \<open>node\<close> and the stride 1. The document has two \<open>node\<close> elements, so the claim
  asks for two written elements; the export succeeds and its file has none.
\<close>

theorem validated_export_writes_no_element:
  "DataFramerXML_init ''res'' example_world ''map.osm'' [''node''] (Some [(''out.osm'', 1)])
     None True ''.'' = Inr example_validated
   \<and> fst (export_dataset ''res'' example_validated example_world) = Inr ()
   \<and> files (snd (snd (export_dataset ''res'' example_validated example_world))) ''res/out.osm'' =
       Some [Bytes xml_declaration, Bytes root_open, Bytes root_close]
   \<and> length (filtered [''node''] example_doc) = 2
   \<and> ceil_div (length (filtered [''node''] example_doc)) 1 = 2"
  by (simp add: init_validated_example first_call example_world_1_def
        filtered_example ceil_div_def)

text \<open>
  C8: the same exporter runs \<^verbatim>\<open>export_dataset\<close> twice with the same source, filter,
  destination and stride. The claim asks for the same content; the first run leaves a
  file without elements, the second a file with both \<open>node\<close> elements.
\<close>

theorem repeated_export_differs:
  "DataFramerXML_init ''res'' example_world ''map.osm'' [''node''] (Some [(''out.osm'', 1)])
     None True ''.'' = Inr example_validated
   \<and> files (snd (snd (export_dataset ''res'' example_validated example_world))) ''res/out.osm'' =
       Some [Bytes xml_declaration, Bytes root_open, Bytes root_close]
   \<and> files (snd (snd (export_dataset ''res''
         (fst (snd (export_dataset ''res'' example_validated example_world)))
         (snd (snd (export_dataset ''res'' example_validated example_world))))))
       ''res/out.osm'' =
       Some [Bytes xml_declaration, Bytes root_open,
             Serialized (Element ''node'' [(''id'', ''1'')] [] []),
             Serialized (Element ''node'' [(''id'', ''3'')] [] []),
             Bytes root_close]"
  by (simp add: init_validated_example first_call second_call)
    (simp add: example_world_1_def)

section \<open>The directory check\<close>

lemma export_dataset_missing_root:
  "\<not> path_exists w (rootPath p) \<Longrightarrow>
     export_dataset d p w = (Inl (IOError ''The path doesn't exist.''), p, w)"
  by (simp add: export_dataset_def)

text \<open>
  C6: the files are written into \<^verbatim>\<open>default_path\<close>, the existence test is made on
  \<^verbatim>\<open>self.rootPath\<close>. With a root path that exists and a \<^verbatim>\<open>default_path\<close> that does
  not, the claim asks for the \<^verbatim>\<open>IOError\<close> of the path check; the export raises the
  \<^verbatim>\<open>ValueError\<close> of the extension check for a destination \<open>data.txt\<close>, returns
  normally for an empty specification, and for \<open>out.osm\<close> fails only inside
  \<^verbatim>\<open>open\<close>.
\<close>

theorem missing_output_directory_not_reported:
  "\<not> path_exists example_world ''out''
   \<and> export_dataset ''out'' (example_parser [''node''] (Some [(''data.txt'', 1)]) None)
         example_world =
       (Inl (ValueError ''Export files must OSM type''),
        example_parser [''node''] (Some [(''data.txt'', 1)]) None, example_world)
   \<and> export_dataset ''out'' (example_parser [''node''] (Some []) None) example_world =
       (Inr (), example_parser [''node''] (Some []) None, example_world)
   \<and> export_dataset ''out'' (example_parser [''node''] (Some [(''out.osm'', 1)]) None)
         example_world =
       (Inl FileNotFoundError, example_parser [''node''] (Some [(''out.osm'', 1)]) None,
        example_world)"
  by (simp add: export_dataset_def path_exists_def example_parser_def example_world_def
        export_one_def Let_def extension_def path_join_def open_wb_def dirname_def)

section \<open>Passes from a reopened cursor\<close>

lemma export_one_other_files:
  "path \<noteq> path_join d (fst e) \<Longrightarrow> files (snd (snd (export_one d e p w))) path = files w path"
  by (auto simp: export_one_def Let_def open_wb_def write_file_def
        split: sum.splits prod.splits if_splits)

lemma export_one_dirs_docs:
  "dirs (snd (snd (export_one d e p w))) = dirs w \<and> docs (snd (snd (export_one d e p w))) = docs w"
  by (auto simp: export_one_def Let_def open_wb_def write_file_def
        split: sum.splits prod.splits if_splits)

lemma export_all_other_files:
  "path \<notin> (\<lambda>e. path_join d (fst e)) ` set entries \<Longrightarrow>
     files (snd (snd (export_all d entries p w))) path = files w path"
proof (induction entries arbitrary: p w)
  case Nil
  then show ?case by simp
next
  case (Cons e entries)
  obtain r p1 w1 where one: "export_one d e p w = (r, p1, w1)"
    by (cases "export_one d e p w") auto
  have w1: "files w1 path = files w path"
    using export_one_other_files [of path d e p w] Cons.prems one by auto
  show ?case
  proof (cases r)
    case (Inl x)
    with one w1 show ?thesis by simp
  next
    case (Inr u)
    with one w1 Cons.IH [of p1 w1] Cons.prems show ?thesis by simp
  qed
qed

lemma streaming_unread:
  assumes "unread p" and "source p \<noteq> path" and "file_source w (source p) = Some s"
  shows "streaming w path p =
     p\<lparr>cursor := items s, unread := False, queued := 0, blocks_left := blocks s, depth := 0\<rparr>"
proof -
  have "file_source (w\<lparr>files := (files w)(path \<mapsto> [])\<rparr>) (source p) = Some s"
    using assms(2,3) by (simp add: file_source_def split: option.splits)
  then show ?thesis
    using assms(1) by (simp add: streaming_def truncate_source_def start_reading_def)
qed

lemma export_one_reopened:
  assumes "unread p" and "\<not> root_live p" and "file_source w (source p) = Some s"
    and "cut s = None" and "extension f = ''osm''" and "writable w (path_join d f)"
    and "source p \<noteq> path_join d f" and "k \<noteq> 0"
  shows "fst (export_one d (f, k) p w) = Inr ()
     \<and> snd (snd (export_one d (f, k) p w)) =
         w\<lparr>files := (files w)(path_join d f \<mapsto>
              [Bytes xml_declaration, Bytes root_open]
              @ map Serialized (sampled k 0 (filtered (tags p) (tree s)))
              @ [Bytes root_close])\<rparr>"
proof -
  note st = streaming_unread [OF assms(1,7,3)]
  have m: "Malformed \<notin> set (cursor (streaming w (path_join d f) p))"
    using Malformed_fresh [OF assms(4)] by (simp add: st)
  have wr: "written k (streaming w (path_join d f) p) = sampled k 0 (filtered (tags p) (tree s))"
    using assms(2,8)
    by (simp add: written_def st yielded_states_not_live yielded_fresh [OF assms(4)])
  have "\<not> stream_fails k (tags p) (cursor (streaming w (path_join d f) p))"
    using m assms(8) by (simp add: stream_fails_def)
  then show ?thesis
    using export_one_fst [OF assms(5,6), of k p] export_one_world [OF assms(5,6), of k p]
      m assms(3,8) wr
    by (simp add: pass_content_def)
qed

lemma writable_files: "writable (w\<lparr>files := fs\<rparr>) path = writable w path"
  by (simp add: writable_def)

lemma file_source_other:
  "src \<noteq> path \<Longrightarrow> file_source (w\<lparr>files := (files w)(path \<mapsto> cs)\<rparr>) src = file_source w src"
  by (simp add: file_source_def split: option.splits)

lemma export_all_reopened:
  assumes "unread p" and "\<not> root_live p" and "file_source w (source p) = Some s"
    and "cut s = None"
    and "\<forall>e \<in> set entries. extension (fst e) = ''osm'' \<and> writable w (path_join d (fst e))
            \<and> snd e \<noteq> 0"
    and "source p \<notin> (\<lambda>e. path_join d (fst e)) ` set entries"
    and "distinct (map (\<lambda>e. path_join d (fst e)) entries)"
  shows "fst (export_all d entries p w) = Inr ()
     \<and> (\<forall>e \<in> set entries.
          files (snd (snd (export_all d entries p w))) (path_join d (fst e)) =
            Some ([Bytes xml_declaration, Bytes root_open]
                  @ map Serialized (sampled (snd e) 0 (filtered (tags p) (tree s)))
                  @ [Bytes root_close]))"
  using assms
proof (induction entries arbitrary: p w)
  case Nil
  then show ?case by simp
next
  case (Cons e entries)
  obtain f k where e: "e = (f, k)" by (cases e)
  obtain r p1 w1 where one: "export_one d (f, k) p w = (r, p1, w1)"
    by (cases "export_one d (f, k) p w") auto
  have ok: "extension f = ''osm''" "writable w (path_join d f)" "k \<noteq> 0"
    "source p \<noteq> path_join d f"
    using Cons.prems e by auto
  note first = export_one_reopened [OF Cons.prems(1,2,3,4) ok(1,2,4,3)]
  have r: "r = Inr ()" using first one by simp
  have w1: "w1 = w\<lparr>files := (files w)(path_join d f \<mapsto>
              [Bytes xml_declaration, Bytes root_open]
              @ map Serialized (sampled k 0 (filtered (tags p) (tree s)))
              @ [Bytes root_close])\<rparr>"
    using first one by simp
  have p1: "unread p1" "\<not> root_live p1" "source p1 = source p" "tags p1 = tags p"
    using export_one_parser [of d f k p w] first one by simp_all
  have src1: "file_source w1 (source p1) = Some s"
    using Cons.prems(3) ok(4) by (simp add: w1 p1 file_source_other)
  have rest: "\<forall>e \<in> set entries. extension (fst e) = ''osm''
      \<and> writable w1 (path_join d (fst e)) \<and> snd e \<noteq> 0"
    using Cons.prems(5) by (simp add: w1 writable_files)
  have notin: "source p1 \<notin> (\<lambda>e. path_join d (fst e)) ` set entries"
    using Cons.prems(6) by (simp add: p1)
  have dist: "distinct (map (\<lambda>e. path_join d (fst e)) entries)"
    using Cons.prems(7) by simp
  note ih = Cons.IH [OF p1(1,2) src1 Cons.prems(4) rest notin dist]
  have here: "path_join d f \<notin> (\<lambda>e. path_join d (fst e)) ` set entries"
    using Cons.prems(7) e by auto
  have kept: "files (snd (snd (export_all d entries p1 w1))) (path_join d f) =
      files w1 (path_join d f)"
    by (rule export_all_other_files [OF here])
  show ?case
    using ih one r kept by (auto simp: e p1 w1)
qed

section \<open>The export call after tag validation\<close>

lemma init_validated:
  assumes "DataFramerXML_init res w osmFile ts fs ex True rp = Inr p"
  shows "cursor p = [] \<and> \<not> unread p \<and> tags p = ts \<and> export_file_map p = fs
     \<and> source p = path_join res osmFile"
  using assms
  by (auto simp: DataFramerXML_init_def ParserXML_init_def validate_def check_tags_def
        split: sum.splits if_splits prod.splits option.splits)

lemma streaming_drained:
  assumes "cursor p = []" and "\<not> unread p"
  shows "cursor (streaming w path p) = [] \<and> written k (streaming w path p) = []"
  using assms
  by (simp add: streaming_def start_reading_def truncate_source_def written_def)

lemma sampled_stride:
  assumes "1 \<le> k"
  shows "sampled k 0 xs = every_nth (nat k) xs"
proof -
  have "0 < nat k" "int (nat k) = k" using assms by simp_all
  then show ?thesis using sampled_every_nth [of "nat k" xs] by simp
qed

lemma init_validated_two:
  "DataFramerXML_init ''res'' example_world ''map.osm'' [''node'']
     (Some [(''out.osm'', 1), (''half.osm'', 2)]) None True ''.'' = Inr example_validated_two"
  by (simp add: DataFramerXML_init_def ParserXML_init_example validate_def check_export_def
        truthy_def check_tags_def items_example example_validated_def example_validated_two_def)

lemma half_written:
  "every_nth 2 [Element ''node'' [(''id'', ''1'')] [] [], Element ''node'' [(''id'', ''3'')] [] []]
     = [Element ''node'' [(''id'', ''1'')] [] []]"
  by (simp add: every_nth_def ceil_div_def)

text \<open>
  C4: when construction with tag validation succeeds, the cursor of the object is
  consumed and not reopened. In the next call of \<^verbatim>\<open>export_dataset\<close> whose first
  destination can be opened, the file of the first destination holds the declaration,
  the opening root tag and the closing root tag and no element, whatever the document,
  the filter and the factor. The later destinations of the same call are produced from
  a reopened cursor: over a well-formed source, with destinations that are distinct
  files other than the source and strides of at least 1, the call succeeds and every
  later file holds every stride-th filtered element of the source.
\<close>

theorem validation_consumes_cursor:
  assumes "DataFramerXML_init res w0 osmFile ts (Some ((f1, k1) # later)) ex True rp = Inr p"
    and "path_exists w (rootPath p)"
    and "extension f1 = ''osm''" and "writable w (path_join d f1)"
    and "path_join d f1 \<notin> (\<lambda>e. path_join d (fst e)) ` set later"
  shows "cursor p = [] \<and> \<not> unread p
     \<and> files (snd (snd (export_dataset d p w))) (path_join d f1) =
         Some [Bytes xml_declaration, Bytes root_open, Bytes root_close]
     \<and> (file_source w (source p) = Some s \<and> cut s = None
          \<and> (\<forall>e \<in> set later. extension (fst e) = ''osm'' \<and> writable w (path_join d (fst e))
                \<and> 1 \<le> snd e)
          \<and> source p \<notin> (\<lambda>e. path_join d (fst e)) ` set ((f1, k1) # later)
          \<and> distinct (map (\<lambda>e. path_join d (fst e)) later)
        \<longrightarrow> fst (export_dataset d p w) = Inr ()
          \<and> (\<forall>e \<in> set later.
                files (snd (snd (export_dataset d p w))) (path_join d (fst e)) =
                  Some ([Bytes xml_declaration, Bytes root_open]
                        @ map Serialized (every_nth (nat (snd e)) (filtered ts (tree s)))
                        @ [Bytes root_close])))"
proof -
  note v = init_validated [OF assms(1)]
  note dr = streaming_drained [of p w "path_join d f1" k1]
  have ds: "export_dataset d p w = export_all d ((f1, k1) # later) p w"
    using assms(2) v by (simp add: export_dataset_def)
  obtain r p1 w1 where one: "export_one d (f1, k1) p w = (r, p1, w1)"
    by (cases "export_one d (f1, k1) p w") auto
  have w1: "w1 = w\<lparr>files := (files w)(path_join d f1 \<mapsto>
      [Bytes xml_declaration, Bytes root_open, Bytes root_close])\<rparr>"
    using export_one_world [OF assms(3,4), of k1 p] one dr v
    by (simp add: pass_content_def stream_fails_def)
  have r: "r = (if source p = path_join d f1 \<or> file_source w (source p) \<noteq> None then Inr ()
      else if source p \<in> dirs w then Inl IsADirectoryError else Inl FileNotFoundError)"
    using export_one_fst [OF assms(3,4), of k1 p] one dr v by simp
  have kept: "files (snd (snd (export_all d later p1 w1))) (path_join d f1) =
      files w1 (path_join d f1)"
    by (rule export_all_other_files [OF assms(5)])
  have first: "files (snd (snd (export_dataset d p w))) (path_join d f1) =
      Some [Bytes xml_declaration, Bytes root_open, Bytes root_close]"
    using one kept by (cases r) (simp_all add: ds w1)
  have later_files: "fst (export_dataset d p w) = Inr ()
      \<and> (\<forall>e \<in> set later.
            files (snd (snd (export_dataset d p w))) (path_join d (fst e)) =
              Some ([Bytes xml_declaration, Bytes root_open]
                    @ map Serialized (every_nth (nat (snd e)) (filtered ts (tree s)))
                    @ [Bytes root_close]))"
    if s: "file_source w (source p) = Some s" and cut: "cut s = None"
      and ok: "\<forall>e \<in> set later. extension (fst e) = ''osm''
                \<and> writable w (path_join d (fst e)) \<and> 1 \<le> snd e"
      and notin: "source p \<notin> (\<lambda>e. path_join d (fst e)) ` set ((f1, k1) # later)"
      and dist: "distinct (map (\<lambda>e. path_join d (fst e)) later)"
  proof -
    have rr: "r = Inr ()" using r s by simp
    have p1: "unread p1" "\<not> root_live p1" "source p1 = source p" "tags p1 = ts"
      using export_one_parser [of d f1 k1 p w] one rr v by simp_all
    have src1: "file_source w1 (source p1) = Some s"
      using s notin by (simp add: w1 p1 file_source_other)
    have ok1: "\<forall>e \<in> set later. extension (fst e) = ''osm''
        \<and> writable w1 (path_join d (fst e)) \<and> snd e \<noteq> 0"
      using ok by (auto simp: w1 writable_files)
    have notin1: "source p1 \<notin> (\<lambda>e. path_join d (fst e)) ` set later"
      using notin by (simp add: p1)
    note all = export_all_reopened [OF p1(1,2) src1 cut ok1 notin1 dist]
    have "sampled (snd e) 0 (filtered ts (tree s)) = every_nth (nat (snd e)) (filtered ts (tree s))"
      if "e \<in> set later" for e
      using ok that sampled_stride by blast
    then show ?thesis
      using all one rr by (simp add: ds p1)
  qed
  show ?thesis
    using v first later_files by blast
qed

theorem validation_consumes_cursor_witness:
  "DataFramerXML_init ''res'' example_world ''map.osm'' [''node'']
     (Some [(''out.osm'', 1), (''half.osm'', 2)]) None True ''.'' = Inr example_validated_two
   \<and> path_exists example_world (rootPath example_validated_two)
   \<and> extension ''out.osm'' = ''osm''
   \<and> writable example_world (path_join ''res'' ''out.osm'')
   \<and> cursor example_validated_two = []
   \<and> fst (export_dataset ''res'' example_validated_two example_world) = Inr ()
   \<and> files (snd (snd (export_dataset ''res'' example_validated_two example_world)))
         ''res/out.osm'' = Some [Bytes xml_declaration, Bytes root_open, Bytes root_close]
   \<and> files (snd (snd (export_dataset ''res'' example_validated_two example_world)))
         ''res/half.osm'' =
       Some [Bytes xml_declaration, Bytes root_open,
             Serialized (Element ''node'' [(''id'', ''1'')] [] []), Bytes root_close]"
proof -
  have pe: "path_exists example_world (rootPath example_validated_two)"
    by (simp add: path_exists_def example_validated_two_def example_validated_def
          example_world_def)
  have w1: "writable example_world (path_join ''res'' ''out.osm'')"
    by (simp add: path_join_res writable_res)
  have ph: "path_join ''res'' ''half.osm'' = ''res/half.osm''" by (simp add: path_join_def)
  have w2: "writable example_world ''res/half.osm''"
    by (simp add: writable_def example_world_def dirname_def)
  have eh: "extension ''half.osm'' = ''osm''" by (simp add: extension_def)
  have src: "source example_validated_two = ''res/map.osm''"
    by (simp add: example_validated_two_def example_validated_def)
  have s: "cut example_source = None" "tree example_source = example_doc"
    by (simp_all add: example_source_def)
  show ?thesis
    using validation_consumes_cursor [OF init_validated_two pe extension_out w1,
        where s = example_source]
      init_validated_two pe w1
    by (simp add: path_join_res ph w2 eh src s file_source_example extension_out
          filtered_example half_written)
qed

section \<open>The shape of an output file\<close>

lemma serialized_elements_map:
  "serialized_elements (map Serialized es @ [Bytes b]) = es"
  by (induction es) auto

lemma reparse_closed:
  "reparse ([Bytes xml_declaration, Bytes root_open] @ map Serialized es @ [Bytes root_close]) =
     \<lparr>tree = Element ''osm'' [] ([CHR 0x0A] @ ''  '') es, cut = None, blocks = []\<rparr>"
  by (simp add: reparse_def serialized_elements_map)

lemma root_open_osm: "root_open = opening_tag ''osm''"
  by (simp add: root_open_def opening_tag_def)

lemma root_close_osm: "root_close = closing_tag ''osm''"
  by (simp add: root_close_def closing_tag_def)

lemma check_root_first:
  assumes "check_root (items s) = Inr (r, rest)"
  shows "r = tree s \<and> lower (tag (tree s)) = ''osm''"
proof -
  have e: "events (tree s) = (Start, tree s) # tl (events (tree s))"
    by (rule events_Cons)
  show ?thesis
  proof (cases "cut s")
    case None
    with assms e show ?thesis
      by (auto simp: items_fresh check_root_def split: if_splits)
  next
    case (Some n)
    show ?thesis
    proof (cases n)
      case 0
      with Some assms show ?thesis by (simp add: items_def check_root_def)
    next
      case (Suc m)
      have "take n (events (tree s)) = (Start, tree s) # take m (tl (events (tree s)))"
        using e Suc by (metis take_Suc_Cons)
      with Some assms show ?thesis
        by (auto simp: items_def check_root_def split: if_splits)
    qed
  qed
qed

lemma init_root:
  assumes "DataFramerXML_init res w osmFile ts fs ex tv rp = Inr p"
  shows "\<exists>s. file_source w (source p) = Some s \<and> root p = tree s
           \<and> lower (tag (tree s)) = ''osm''"
  using assms
  by (auto simp: DataFramerXML_init_def ParserXML_init_def validate_def check_tags_def
        split: sum.splits if_splits prod.splits option.splits dest: check_root_first)

lemma refill_pos: "0 < q \<Longrightarrow> refill n q bs = (q, bs)"
  by (cases q) simp_all

lemma init_example_root_filter:
  "DataFramerXML_init ''res'' example_world ''map.osm'' [''node'', ''osm'']
     (Some [(''out.osm'', 1)]) None False ''.'' =
   Inr (example_parser [''node'', ''osm''] (Some [(''out.osm'', 1)]) None)"
  by (simp add: DataFramerXML_init_def ParserXML_init_example validate_def check_export_def
        truthy_def check_tags_def example_parser_def)

lemma written_root_filter:
  "written 1 (example_parser [''node'', ''osm''] (Some [(''out.osm'', 1)]) None) =
     [Element ''node'' [(''id'', ''1'')] [] [], Element ''node'' [(''id'', ''3'')] [] [],
      Element ''osm'' [] [] []]"
  by (simp add: written_def example_parser_def items_example refill_pos tag_example_doc)

lemma init_upper:
  "DataFramerXML_init ''res'' example_upper_world ''upper.osm'' [''node'']
     (Some [(''out.osm'', 1)]) None False ''.'' = Inr example_upper_parser"
proof -
  have "file_source example_upper_world ''res/upper.osm'' = Some example_upper_source"
    by (simp add: file_source_def example_upper_world_def)
  moreover have "items example_upper_source =
      [Ev Start (tree example_upper_source),
       Ev Start (Element ''node'' [(''id'', ''1'')] [] []),
       Ev End (Element ''node'' [(''id'', ''1'')] [] []),
       Ev End (tree example_upper_source)]"
    by (simp add: items_def example_upper_source_def)
  moreover have "blocks example_upper_source = []"
    "tag (tree example_upper_source) = ''OSM''"
    by (simp_all add: example_upper_source_def)
  ultimately show ?thesis
    by (simp add: DataFramerXML_init_def ParserXML_init_def extension_def lower_osm_literal
        path_join_def iterparse_def check_root_def lower_OSM_literal validate_def
        check_export_def truthy_def check_tags_def example_upper_parser_def)
qed

text \<open>
  C9, as the specification states it, fails: the root tag of an output file is not
  always the root tag of the source. The source root \<open>OSM\<close> is accepted, and the
  output file, parsed itself, is a well-formed document with the root \<open>osm\<close>.
\<close>

theorem root_tag_not_preserved:
  "DataFramerXML_init ''res'' example_upper_world ''upper.osm'' [''node'']
     (Some [(''out.osm'', 1)]) None False ''.'' = Inr example_upper_parser
   \<and> fst (export_one ''res'' (''out.osm'', 1) example_upper_parser example_upper_world) = Inr ()
   \<and> file_source example_upper_world (source example_upper_parser) = Some example_upper_source
   \<and> tag (tree example_upper_source) = ''OSM''
   \<and> file_source (snd (snd (export_one ''res'' (''out.osm'', 1) example_upper_parser
         example_upper_world))) ''res/out.osm'' =
       Some \<lparr>tree = Element ''osm'' [] ([CHR 0x0A] @ ''  '')
                      [Element ''node'' [(''id'', ''1'')] [] []],
             cut = None, blocks = []\<rparr>
   \<and> tag (tree (the (file_source (snd (snd (export_one ''res'' (''out.osm'', 1)
         example_upper_parser example_upper_world))) ''res/out.osm'')))
       \<noteq> tag (tree example_upper_source)"
proof -
  have src: "file_source example_upper_world ''res/upper.osm'' = Some example_upper_source"
    by (simp add: file_source_def example_upper_world_def)
  have it: "items example_upper_source =
      [Ev Start (tree example_upper_source),
       Ev Start (Element ''node'' [(''id'', ''1'')] [] []),
       Ev End (Element ''node'' [(''id'', ''1'')] [] []),
       Ev End (tree example_upper_source)]"
    by (simp add: items_def example_upper_source_def)
  have tg: "tag (tree example_upper_source) = ''OSM''"
    by (simp add: example_upper_source_def)
  have wr: "writable example_upper_world ''res/out.osm''"
    by (simp add: writable_def example_upper_world_def dirname_def)
  have st: "streaming example_upper_world ''res/out.osm'' example_upper_parser
      = example_upper_parser"
    by (rule not_unread_streaming) (simp_all add: example_upper_parser_def)
  have c: "cursor example_upper_parser = tl (items example_upper_source)"
    "tags example_upper_parser = [''node'']"
    "source example_upper_parser = ''res/upper.osm''"
    by (simp_all add: example_upper_parser_def)
  have ok: "fst (export_one ''res'' (''out.osm'', 1) example_upper_parser example_upper_world)
      = Inr ()"
    using export_one_fst [of "''out.osm''" example_upper_world "''res''" 1 example_upper_parser]
    by (simp add: extension_out path_join_res wr st c it src)
  have w: "written 1 example_upper_parser = [Element ''node'' [(''id'', ''1'')] [] []]"
    by (simp add: written_def example_upper_parser_def it refill_pos tg)
  have content: "files (snd (snd (export_one ''res'' (''out.osm'', 1) example_upper_parser
         example_upper_world))) ''res/out.osm'' =
       Some ([Bytes xml_declaration, Bytes root_open]
             @ map Serialized [Element ''node'' [(''id'', ''1'')] [] []]
             @ [Bytes root_close])"
    using export_one_file [of "''out.osm''" example_upper_world "''res''" 1 example_upper_parser]
    by (simp add: extension_out path_join_res wr st w pass_content_def stream_fails_def c it)
  have parsed: "file_source (snd (snd (export_one ''res'' (''out.osm'', 1) example_upper_parser
         example_upper_world))) ''res/out.osm'' =
       Some \<lparr>tree = Element ''osm'' [] ([CHR 0x0A] @ ''  '')
                      [Element ''node'' [(''id'', ''1'')] [] []],
             cut = None, blocks = []\<rparr>"
    unfolding file_source_def content by (simp only: option.case reparse_closed)
  show ?thesis
    using init_upper ok parsed by (simp add: c src tg)
qed

text \<open>
  C9, amended: every successfully written output file consists of the XML declaration,
  the opening tag \<^verbatim>\<open><osm>\<close>, the serialized elements the pass selected, and the closing
  tag \<^verbatim>\<open></osm>\<close>. Parsed itself, the file is a well-formed document (the parser reaches
  its end without an error) whose root has the tag \<open>osm\<close> and these elements as
  children. The root tag of the source equals \<open>osm\<close> when it is put in lower case:
  an export pass changes neither the source path nor the tag of the root, and for the
  object the constructor returns the root is the root of the source.
\<close>

theorem output_document_shape:
  "(fst (export_one d (f, k) p w) = Inr () \<longrightarrow>
      files (snd (snd (export_one d (f, k) p w))) (path_join d f) =
        Some ([Bytes xml_declaration, Bytes (opening_tag ''osm'')]
              @ map Serialized (written k (streaming w (path_join d f) p))
              @ [Bytes (closing_tag ''osm'')])
      \<and> file_source (snd (snd (export_one d (f, k) p w))) (path_join d f) =
          Some \<lparr>tree = Element ''osm'' [] ([CHR 0x0A] @ ''  '')
                         (written k (streaming w (path_join d f) p)),
                cut = None, blocks = []\<rparr>
      \<and> source (fst (snd (export_one d (f, k) p w))) = source p
      \<and> tag (root (fst (snd (export_one d (f, k) p w)))) = tag (root p))
   \<and> (DataFramerXML_init res w0 osmFile ts fs ex tv rp = Inr p0 \<longrightarrow>
        (\<exists>s. file_source w0 (source p0) = Some s \<and> root p0 = tree s
              \<and> lower (tag (tree s)) = ''osm''))"
proof -
  have pass: "files (snd (snd (export_one d (f, k) p w))) (path_join d f) =
        Some ([Bytes xml_declaration, Bytes (opening_tag ''osm'')]
              @ map Serialized (written k (streaming w (path_join d f) p))
              @ [Bytes (closing_tag ''osm'')])
      \<and> file_source (snd (snd (export_one d (f, k) p w))) (path_join d f) =
          Some \<lparr>tree = Element ''osm'' [] ([CHR 0x0A] @ ''  '')
                         (written k (streaming w (path_join d f) p)),
                cut = None, blocks = []\<rparr>
      \<and> source (fst (snd (export_one d (f, k) p w))) = source p
      \<and> tag (root (fst (snd (export_one d (f, k) p w)))) = tag (root p)"
    if ok: "fst (export_one d (f, k) p w) = Inr ()"
  proof -
    note o = export_one_Inr [OF ok]
    have nf: "\<not> stream_fails k (tags p) (cursor (streaming w (path_join d f) p))"
      using export_one_fst [of f w d k p] o ok
      by (auto simp: stream_fails_def split: if_splits)
    have content: "files (snd (snd (export_one d (f, k) p w))) (path_join d f) =
        Some ([Bytes xml_declaration, Bytes root_open]
              @ map Serialized (written k (streaming w (path_join d f) p))
              @ [Bytes root_close])"
      using export_one_file [of f w d k p] o nf by (simp add: pass_content_def)
    have "file_source (snd (snd (export_one d (f, k) p w))) (path_join d f) =
        Some (reparse ([Bytes xml_declaration, Bytes root_open]
              @ map Serialized (written k (streaming w (path_join d f) p))
              @ [Bytes root_close]))"
      using content by (simp add: file_source_def)
    then show ?thesis
      using content export_one_parser [OF ok]
      by (simp only: reparse_closed) (simp add: root_open_osm root_close_osm)
  qed
  show ?thesis
    using pass init_root [of res w0 osmFile ts fs ex tv rp p0] by blast
qed

theorem output_document_shape_witness:
  "DataFramerXML_init ''res'' example_world ''map.osm'' [''node'', ''osm'']
     (Some [(''out.osm'', 1)]) None False ''.'' =
     Inr (example_parser [''node'', ''osm''] (Some [(''out.osm'', 1)]) None)
   \<and> fst (export_one ''res'' (''out.osm'', 1)
         (example_parser [''node'', ''osm''] (Some [(''out.osm'', 1)]) None) example_world)
       = Inr ()
   \<and> files (snd (snd (export_one ''res'' (''out.osm'', 1)
         (example_parser [''node'', ''osm''] (Some [(''out.osm'', 1)]) None) example_world)))
         ''res/out.osm'' =
       Some [Bytes xml_declaration, Bytes (opening_tag ''osm''),
             Serialized (Element ''node'' [(''id'', ''1'')] [] []),
             Serialized (Element ''node'' [(''id'', ''3'')] [] []),
             Serialized (Element ''osm'' [] [] []),
             Bytes (closing_tag ''osm'')]
   \<and> lower (tag (tree example_source)) = ''osm''"
proof -
  let ?p = "example_parser [''node'', ''osm''] (Some [(''out.osm'', 1)]) None"
  have st: "streaming example_world ''res/out.osm'' ?p = ?p"
    by (rule not_unread_streaming) (simp_all add: example_parser_def)
  have c: "cursor ?p = tl (items example_source)" "tags ?p = [''node'', ''osm'']"
    "source ?p = ''res/map.osm''"
    by (simp_all add: example_parser_def)
  have ok: "fst (export_one ''res'' (''out.osm'', 1) ?p example_world) = Inr ()"
    using export_one_fst [of "''out.osm''" example_world "''res''" 1 ?p]
    by (simp add: extension_out path_join_res writable_res st c items_example
          file_source_example)
  have t: "tree example_source = example_doc" by (simp add: example_source_def)
  show ?thesis
    using output_document_shape [of "''res''" "''out.osm''" 1 ?p example_world
        "''res''" example_world "''map.osm''" "[''node'', ''osm'']" "Some [(''out.osm'', 1)]"
        None False "''.''" ?p]
      ok init_example_root_filter
    by (simp add: path_join_res st written_root_filter c file_source_example t)
qed

end
